theory Spec2Isabelle
  imports Main
begin

section \<open>Text and value normalizers\<close>

text \<open>
  A string is the list of the bytes of its UTF-8 encoding. The class \<^verbatim>\<open>\s\<close> and
  \<^verbatim>\<open>trim()\<close> take the same characters as white space: tab, line feed, vertical
  tab, form feed, carriage return and space, of one byte each; U+00A0, of two bytes; and
  U+1680, U+2000 to U+200A, U+2028, U+2029, U+202F, U+205F, U+3000 and U+FEFF, of three
  bytes each. \<open>spaceLength s\<close> is the number of bytes of the white-space character that
  \<open>s\<close> begins with, and 0 when it begins with none. \<open>isDigit\<close> is \<^verbatim>\<open>\d\<close>.
\<close>

definition isDigit :: "char \<Rightarrow> bool" where
  "isDigit c = (48 \<le> (of_char c :: nat) \<and> (of_char c :: nat) \<le> 57)"

definition isSpace3 :: "nat \<Rightarrow> nat \<Rightarrow> nat \<Rightarrow> bool" where
  "isSpace3 a b c =
     (a = 225 \<and> b = 154 \<and> c = 128 \<or>
      a = 226 \<and> b = 128 \<and> (128 \<le> c \<and> c \<le> 138 \<or> c = 168 \<or> c = 169 \<or> c = 175) \<or>
      a = 226 \<and> b = 129 \<and> c = 159 \<or>
      a = 227 \<and> b = 128 \<and> c = 128 \<or>
      a = 239 \<and> b = 187 \<and> c = 191)"

definition spaceLength :: "string \<Rightarrow> nat" where
  "spaceLength s =
     (case s of
        [] \<Rightarrow> 0
      | a # s1 \<Rightarrow>
          if (of_char a :: nat) \<in> {9, 10, 11, 12, 13, 32} then 1
          else (case s1 of
                  [] \<Rightarrow> 0
                | b # s2 \<Rightarrow>
                    if (of_char a :: nat) = 194 \<and> (of_char b :: nat) = 160 then 2
                    else (case s2 of
                            [] \<Rightarrow> 0
                          | c # s3 \<Rightarrow>
                              if isSpace3 (of_char a) (of_char b) (of_char c) then 3 else 0)))"

text \<open>The string without the white space it begins with.\<close>

function dropSpaces :: "string \<Rightarrow> string" where
  "dropSpaces s = (if spaceLength s = 0 then s else dropSpaces (drop (spaceLength s) s))"
  by pat_completeness auto
termination
  by (relation "measure length") (auto simp: spaceLength_def split: list.splits if_splits)

declare dropSpaces.simps [simp del]

text \<open>
  The string without the white space it ends with: it stops at the first place from which
  there is nothing but white space.
\<close>

primrec trimEnd :: "string \<Rightarrow> string" where
  "trimEnd [] = []"
| "trimEnd (c # cs) = (if dropSpaces (c # cs) = [] then [] else c # trimEnd cs)"

definition trim :: "string \<Rightarrow> string" where
  "trim s = trimEnd (dropSpaces s)"

text \<open>\<^verbatim>\<open>replace(/\s+/g, ' ')\<close>: every maximal run of white space becomes one space.\<close>

function collapseSpaces :: "string \<Rightarrow> string" where
  "collapseSpaces [] = []"
| "collapseSpaces (c # cs) =
     (if spaceLength (c # cs) = 0 then c # collapseSpaces cs
      else CHR '' '' # collapseSpaces (dropSpaces (c # cs)))"
  by pat_completeness auto
termination
proof (relation "measure length")
  show "wf (measure length)" by simp
next
  fix c :: char and cs :: string
  show "(cs, c # cs) \<in> measure length" by simp
next
  fix c :: char and cs :: string
  assume n: "spaceLength (c # cs) \<noteq> 0"
  have le: "length (dropSpaces s) \<le> length s" for s
  proof (induction s rule: dropSpaces.induct)
    case (1 s)
    show ?case
    proof (cases "spaceLength s = 0")
      case True
      then show ?thesis by (subst dropSpaces.simps) simp
    next
      case False
      with 1 have "length (dropSpaces (drop (spaceLength s) s)) \<le> length (drop (spaceLength s) s)"
        by simp
      with False show ?thesis by (subst dropSpaces.simps) simp
    qed
  qed
  from n have "dropSpaces (c # cs) = dropSpaces (drop (spaceLength (c # cs)) (c # cs))"
    by (subst dropSpaces.simps) simp
  moreover from le have "length (dropSpaces (drop (spaceLength (c # cs)) (c # cs))) \<le>
      length (drop (spaceLength (c # cs)) (c # cs))" .
  ultimately have "length (dropSpaces (c # cs)) < length (c # cs)"
    using n by simp
  then show "(dropSpaces (c # cs), c # cs) \<in> measure length" by simp
qed

text \<open>
  \<^verbatim>\<open>if (!text) return undefined; return text.trim().replace(/\s+/g, ' ');\<close>
  A missing and an empty string are both falsy; a string of whitespace only is not, and
  is cleaned to the empty string.
\<close>

definition cleanText :: "string option \<Rightarrow> string option" where
  "cleanText text =
     (case text of
        None \<Rightarrow> None
      | Some s \<Rightarrow> if s = [] then None else Some (collapseSpaces (trim s)))"

text \<open>
  \<^verbatim>\<open>dateString.match(/\d{4}/)\<close>: the leftmost position at which four digits
  follow one another; the match is those four characters.
\<close>

fun firstFourDigits :: "string \<Rightarrow> string option" where
  "firstFourDigits (a # b # c # d # rest) =
     (if isDigit a \<and> isDigit b \<and> isDigit c \<and> isDigit d then Some [a, b, c, d]
      else firstFourDigits (b # c # d # rest))"
| "firstFourDigits _ = None"

definition digitValue :: "char \<Rightarrow> int" where
  "digitValue c = int (of_char c) - 48"

text \<open>\<open>parseInt\<close> on a string of decimal digits.\<close>

definition parseInt :: "string \<Rightarrow> int" where
  "parseInt ds = foldl (\<lambda>n c. 10 * n + digitValue c) 0 ds"

definition extractYear :: "string option \<Rightarrow> int option" where
  "extractYear dateString =
     (case dateString of
        None \<Rightarrow> None
      | Some s \<Rightarrow> if s = [] then None else map_option parseInt (firstFourDigits s))"

text \<open>
  The specification's wording of \<open>extractYear\<close>, for comparison with the code: the
  first run of exactly four digits, a run being a maximal block of consecutive digits.
\<close>

function digitRuns :: "string \<Rightarrow> string list" where
  "digitRuns [] = []"
| "digitRuns (c # cs) =
     (if isDigit c then (c # takeWhile isDigit cs) # digitRuns (dropWhile isDigit cs)
      else digitRuns cs)"
  by pat_completeness auto
termination
  by (relation "measure length") (auto simp: length_dropWhile_le less_Suc_eq_le)

definition extractYear_spec :: "string option \<Rightarrow> int option" where
  "extractYear_spec dateString =
     (case dateString of
        None \<Rightarrow> None
      | Some s \<Rightarrow> map_option parseInt (find (\<lambda>r. length r = 4) (digitRuns s)))"

text \<open>Four digits in a row start at index \<open>i\<close> of \<open>s\<close>.\<close>

definition fourDigitsAt :: "string \<Rightarrow> nat \<Rightarrow> bool" where
  "fourDigitsAt s i = (i + 4 \<le> length s \<and> list_all isDigit (take 4 (drop i s)))"

section \<open>Candidate records and source adapters\<close>

text \<open>The interface \<^verbatim>\<open>ScrapedBook\<close>; an optional field is an \<open>option\<close>.\<close>

record ScrapedBook =
  title :: string
  subtitle :: "string option"
  isbn :: "string option"
  publication_year :: "int option"
  publisher :: "string option"
  pages :: "int option"
  language :: "string option"
  description :: "string option"
  cover_image_url :: "string option"
  source_url :: "string option"
  authors :: "string list"
  categories :: "string list"
  pdf_url :: "string option"
  download_url :: "string option"

text \<open>The interface \<^verbatim>\<open>CustomSelectors\<close>.\<close>

record CustomSelectors =
  sel_container :: string
  sel_title :: string
  sel_subtitle :: "string option"
  sel_authors :: "string option"
  sel_description :: "string option"
  sel_coverImage :: "string option"
  sel_link :: "string option"
  sel_publisher :: "string option"
  sel_year :: "string option"
  sel_isbn :: "string option"
  sel_categories :: "string option"
  sel_pages :: "string option"

text \<open>
  JavaScript truthiness of an optional string and of an optional number: a missing value,
  the empty string and zero are falsy.
\<close>

definition truthyStr :: "string option \<Rightarrow> bool" where
  "truthyStr x = (case x of None \<Rightarrow> False | Some s \<Rightarrow> s \<noteq> [])"

definition truthyNum :: "int option \<Rightarrow> bool" where
  "truthyNum x = (case x of None \<Rightarrow> False | Some n \<Rightarrow> n \<noteq> 0)"

text \<open>\<^verbatim>\<open>a || b\<close> on optional strings.\<close>

definition jsOr :: "string option \<Rightarrow> string option \<Rightarrow> string option" where
  "jsOr a b = (if truthyStr a then a else b)"

text \<open>\<^verbatim>\<open>x || 'default'\<close>.\<close>

definition orDefault :: "string option \<Rightarrow> string \<Rightarrow> string" where
  "orDefault a d = (case a of None \<Rightarrow> d | Some s \<Rightarrow> if s = [] then d else s)"

text \<open>\<^verbatim>\<open>.filter(Boolean)\<close> on a list of optional strings.\<close>

definition filterBoolean :: "string option list \<Rightarrow> string list" where
  "filterBoolean xs = List.map_filter (\<lambda>x. if truthyStr x then x else None) xs"

definition unknownTitle :: string where
  "unknownTitle = ''Unknown Title''"

text \<open>
  The test every adapter applies before it pushes a book:
  \<^verbatim>\<open>book.title && book.title !== 'Unknown Title'\<close>.
\<close>

definition keepBook :: "ScrapedBook \<Rightarrow> ScrapedBook option" where
  "keepBook book = (if title book \<noteq> [] \<and> title book \<noteq> unknownTitle then Some book else None)"

text \<open>Decimal text of a number, as a template string prints it.\<close>

function showNat :: "nat \<Rightarrow> string" where
  "showNat n =
     (if n < 10 then [char_of (48 + n)]
      else showNat (n div 10) @ [char_of (48 + n mod 10)])"
  by pat_completeness auto
termination
  by (relation "measure id") auto

declare showNat.simps [simp del]

definition showInt :: "int \<Rightarrow> string" where
  "showInt i = (if i < 0 then CHR ''-'' # showNat (nat (- i)) else showNat (nat i))"

subsection \<open>Open Library\<close>

text \<open>
  One element of \<^verbatim>\<open>data.works\<close>. The description arrives as a string, as an
  object with a \<^verbatim>\<open>value\<close>, or as neither.
\<close>

datatype ol_description = DescString string | DescObject "string option" | DescOther

record ol_work =
  w_title :: "string option"
  w_first_publish_year :: "int option"
  w_description :: ol_description
  w_cover_id :: "int option"
  w_key :: "string option"
  w_authors :: "string option list option"
  w_pdf_url :: "string option"
  w_download_url :: "string option"

definition openLibraryBook :: "string \<Rightarrow> ol_work \<Rightarrow> ScrapedBook option" where
  "openLibraryBook subject work =
     (let description =
            (case w_description work of
               DescString s \<Rightarrow> Some s
             | DescObject v \<Rightarrow> if truthyStr v then v else None
             | DescOther \<Rightarrow> None)
      in keepBook
        \<lparr> title = orDefault (cleanText (w_title work)) unknownTitle,
          subtitle = None,
          isbn = None,
          publication_year = w_first_publish_year work,
          publisher = None,
          pages = None,
          language = Some ''English'',
          description = cleanText description,
          cover_image_url =
            (case w_cover_id work of
               None \<Rightarrow> None
             | Some c \<Rightarrow>
                 if c = 0 then None
                 else Some (''https://covers.openlibrary.org/b/id/'' @ showInt c @ ''-L.jpg'')),
          source_url =
            (case w_key work of
               None \<Rightarrow> None
             | Some k \<Rightarrow> if k = [] then None else Some (''https://openlibrary.org'' @ k)),
          authors =
            (case w_authors work of
               None \<Rightarrow> []
             | Some as \<Rightarrow> filterBoolean (map cleanText as)),
          categories = [subject],
          pdf_url = w_pdf_url work,
          download_url = w_download_url work \<rparr>)"

definition openLibraryBooks :: "string \<Rightarrow> ol_work list \<Rightarrow> ScrapedBook list" where
  "openLibraryBooks subject works = List.map_filter (openLibraryBook subject) works"

subsection \<open>Google Books\<close>

record gb_identifier =
  id_type :: string
  id_identifier :: "string option"

record gb_imageLinks =
  thumbnail :: "string option"
  smallThumbnail :: "string option"

record gb_volumeInfo =
  v_title :: "string option"
  v_subtitle :: "string option"
  v_industryIdentifiers :: "gb_identifier list option"
  v_publishedDate :: "string option"
  v_publisher :: "string option"
  v_pageCount :: "int option"
  v_language :: "string option"
  v_description :: "string option"
  v_imageLinks :: "gb_imageLinks option"
  v_canonicalVolumeLink :: "string option"
  v_previewLink :: "string option"
  v_infoLink :: "string option"
  v_authors :: "string list option"
  v_categories :: "string list option"

text \<open>
  An item without \<^verbatim>\<open>volumeInfo\<close> raises a type error at the first property
  read; the error is caught per item and the item is left out.
\<close>

definition googleBooksBook :: "gb_volumeInfo option \<Rightarrow> ScrapedBook option" where
  "googleBooksBook item =
     (case item of
        None \<Rightarrow> None
      | Some volumeInfo \<Rightarrow>
          (let isbn =
                 (case v_industryIdentifiers volumeInfo of
                    None \<Rightarrow> None
                  | Some ids \<Rightarrow>
                      jsOr (Option.bind (find (\<lambda>i. id_type i = ''ISBN_13'') ids) id_identifier)
                           (Option.bind (find (\<lambda>i. id_type i = ''ISBN_10'') ids) id_identifier))
           in keepBook
             \<lparr> title = orDefault (cleanText (v_title volumeInfo)) unknownTitle,
               subtitle = cleanText (v_subtitle volumeInfo),
               isbn = isbn,
               publication_year =
                 (if truthyStr (v_publishedDate volumeInfo)
                  then extractYear (v_publishedDate volumeInfo) else None),
               publisher = cleanText (v_publisher volumeInfo),
               pages = v_pageCount volumeInfo,
               language = Some (orDefault (v_language volumeInfo) ''en''),
               description = cleanText (v_description volumeInfo),
               cover_image_url =
                 jsOr (Option.bind (v_imageLinks volumeInfo) thumbnail)
                      (Option.bind (v_imageLinks volumeInfo) smallThumbnail),
               source_url =
                 jsOr (jsOr (v_canonicalVolumeLink volumeInfo) (v_previewLink volumeInfo))
                      (v_infoLink volumeInfo),
               authors =
                 (case v_authors volumeInfo of
                    None \<Rightarrow> []
                  | Some as \<Rightarrow> filterBoolean (map (\<lambda>a. cleanText (Some a)) as)),
               categories =
                 (case v_categories volumeInfo of
                    None \<Rightarrow> []
                  | Some cs \<Rightarrow> filterBoolean (map (\<lambda>c. cleanText (Some c)) cs)),
               pdf_url = None,
               download_url = None \<rparr>))"

definition googleBooksBooks :: "gb_volumeInfo option list \<Rightarrow> ScrapedBook list" where
  "googleBooksBooks items = List.map_filter googleBooksBook items"

subsection \<open>Project Gutenberg\<close>

text \<open>
  One \<^verbatim>\<open>.booklink\<close> element, as the three reads the adapter makes of it: the
  text of \<^verbatim>\<open>.title\<close>, the \<^verbatim>\<open>href\<close> of \<^verbatim>\<open>a.link\<close> and the text of
  \<^verbatim>\<open>.subtitle\<close>.
\<close>

record gutenberg_entry =
  g_titleText :: string
  g_href :: "string option"
  g_subtitleText :: string

text \<open>\<^verbatim>\<open>replace(/^by\s+/i, '')\<close>\<close>

definition stripBy :: "string \<Rightarrow> string" where
  "stripBy s =
     (case s of
        b # y # rest \<Rightarrow>
          if (b = CHR ''b'' \<or> b = CHR ''B'') \<and> (y = CHR ''y'' \<or> y = CHR ''Y'') \<and>
             spaceLength rest \<noteq> 0
          then dropSpaces rest else s
      | _ \<Rightarrow> s)"

definition gutenbergBook :: "string \<Rightarrow> gutenberg_entry \<Rightarrow> ScrapedBook option" where
  "gutenbergBook searchTerm entry =
     (let title = cleanText (Some (g_titleText entry));
          bookUrl = g_href entry;
          authorsText = cleanText (Some (g_subtitleText entry));
          authors =
            (case authorsText of
               None \<Rightarrow> []
             | Some t \<Rightarrow>
                 if t = [] then []
                 else (let authorName = trim (stripBy t)
                       in if authorName = [] then [] else [authorName]))
      in keepBook
        \<lparr> title = orDefault title unknownTitle,
          subtitle = None,
          isbn = None,
          publication_year = None,
          publisher = None,
          pages = None,
          language = Some ''English'',
          description = None,
          cover_image_url = None,
          source_url =
            (case bookUrl of
               None \<Rightarrow> None
             | Some u \<Rightarrow> if u = [] then None else Some (''https://www.gutenberg.org'' @ u)),
          authors = authors,
          categories = [searchTerm],
          pdf_url = None,
          download_url = None \<rparr>)"

text \<open>\<^verbatim>\<open>books.slice(0, 20)\<close>\<close>

definition gutenbergBooks :: "string \<Rightarrow> gutenberg_entry list \<Rightarrow> ScrapedBook list" where
  "gutenbergBooks searchTerm entries = take 20 (List.map_filter (gutenbergBook searchTerm) entries)"

subsection \<open>Custom website\<close>

text \<open>
  One element matched by the container selector, as the reads the adapter makes of it:
  the text under a selector, an attribute of the first element under a selector, and the
  texts of all elements under a selector.
\<close>

record custom_item =
  itemText :: "string \<Rightarrow> string"
  itemAttr :: "string \<Rightarrow> string \<Rightarrow> string option"
  itemTexts :: "string \<Rightarrow> string list"

definition startsWith :: "string \<Rightarrow> string \<Rightarrow> bool" where
  "startsWith s p = (take (length p) s = p)"

text \<open>
  \<^verbatim>\<open>src.startsWith('http') ? src : new URL(src, url).href\<close>. The URL constructor is
  the parameter \<open>resolveUrl\<close>; it raises on a reference it cannot resolve, which is the
  value \<open>None\<close>.
\<close>

definition absoluteUrl :: "(string \<Rightarrow> string \<Rightarrow> string option) \<Rightarrow> string \<Rightarrow> string \<Rightarrow> string option" where
  "absoluteUrl resolveUrl url src =
     (if startsWith src ''http'' then Some src else resolveUrl src url)"

text \<open>\<^verbatim>\<open>text.match(/\d+/)\<close>: the first maximal run of digits.\<close>

definition firstDigits :: "string \<Rightarrow> string option" where
  "firstDigits s =
     (case dropWhile (\<lambda>c. \<not> isDigit c) s of [] \<Rightarrow> None | ds \<Rightarrow> Some (takeWhile isDigit ds))"

text \<open>
  An optional selector is used when it is truthy. The result is \<open>None\<close> when building
  the book raised (the URL constructor) or the book was not pushed.
\<close>

definition withSelector :: "string option \<Rightarrow> (string \<Rightarrow> 'a option) \<Rightarrow> 'a option" where
  "withSelector sel f = (case sel of None \<Rightarrow> None | Some q \<Rightarrow> if q = [] then None else f q)"

definition customUrl ::
  "(string \<Rightarrow> string \<Rightarrow> string option) \<Rightarrow> string \<Rightarrow> custom_item \<Rightarrow> string option \<Rightarrow> string \<Rightarrow>
     string option option" where
  "customUrl resolveUrl url item sel attr =
     (case sel of
        None \<Rightarrow> Some None
      | Some q \<Rightarrow>
          if q = [] then Some None
          else (case itemAttr item q attr of
                  None \<Rightarrow> Some None
                | Some src \<Rightarrow>
                    if src = [] then Some None
                    else map_option Some (absoluteUrl resolveUrl url src)))"

definition customBook ::
  "(string \<Rightarrow> string \<Rightarrow> string option) \<Rightarrow> string \<Rightarrow> CustomSelectors \<Rightarrow> custom_item \<Rightarrow>
     ScrapedBook option" where
  "customBook resolveUrl url selectors item =
     (let title = cleanText (Some (itemText item (sel_title selectors)));
          subtitle = withSelector (sel_subtitle selectors) (\<lambda>q. cleanText (Some (itemText item q)));
          description =
            withSelector (sel_description selectors) (\<lambda>q. cleanText (Some (itemText item q)))
      in case customUrl resolveUrl url item (sel_coverImage selectors) ''src'' of
           None \<Rightarrow> None
         | Some coverImageUrl \<Rightarrow>
        (case customUrl resolveUrl url item (sel_link selectors) ''href'' of
           None \<Rightarrow> None
         | Some sourceUrl \<Rightarrow>
        (let publisher =
               withSelector (sel_publisher selectors) (\<lambda>q. cleanText (Some (itemText item q)));
             publicationYear =
               withSelector (sel_year selectors) (\<lambda>q. extractYear (Some (itemText item q)));
             isbn = withSelector (sel_isbn selectors) (\<lambda>q. cleanText (Some (itemText item q)));
             pages =
               withSelector (sel_pages selectors)
                 (\<lambda>q. map_option parseInt (firstDigits (itemText item q)));
             authors =
               (case withSelector (sel_authors selectors) (\<lambda>q. Some (itemTexts item q)) of
                  None \<Rightarrow> []
                | Some ts \<Rightarrow> filterBoolean (map (\<lambda>t. cleanText (Some t)) ts));
             categories =
               (case withSelector (sel_categories selectors) (\<lambda>q. Some (itemTexts item q)) of
                  None \<Rightarrow> []
                | Some ts \<Rightarrow> filterBoolean (map (\<lambda>t. cleanText (Some t)) ts))
         in keepBook
           \<lparr> title = orDefault title unknownTitle,
             subtitle = subtitle,
             isbn = isbn,
             publication_year = publicationYear,
             publisher = publisher,
             pages = pages,
             language = Some ''English'',
             description = description,
             cover_image_url = coverImageUrl,
             source_url = sourceUrl,
             authors = authors,
             categories = categories,
             pdf_url = None,
             download_url = None \<rparr>)))"

definition customBooks ::
  "(string \<Rightarrow> string \<Rightarrow> string option) \<Rightarrow> string \<Rightarrow> CustomSelectors \<Rightarrow> custom_item list \<Rightarrow>
     ScrapedBook list" where
  "customBooks resolveUrl url selectors items =
     List.map_filter (customBook resolveUrl url selectors) items"


section \<open>The catalog store\<close>

text \<open>
  The tables the service reads and writes, each a list of rows. A \<^verbatim>\<open>SELECT\<close> gives
  the rows that match in the order of the list, in which a new row comes last and an
  updated row keeps its place. None of the statements has an \<^verbatim>\<open>ORDER BY\<close>, and
  PostgreSQL promises no order without one: which of several matching rows is
  \<^verbatim>\<open>rows[0]\<close> is fixed here by the list, and by the store in a run. A column that a
  statement does not set keeps the default of the table's declaration; for a nullable
  column that is \<open>None\<close>.
\<close>

record book_row =
  book_id :: nat
  b_title :: string
  b_subtitle :: "string option"
  b_isbn :: "string option"
  b_publication_year :: "int option"
  b_publisher :: "string option"
  b_pages :: "int option"
  b_language :: string
  b_description :: "string option"
  b_cover_image_url :: "string option"
  b_source_id :: nat
  b_source_url :: "string option"
  b_pdf_url :: "string option"
  b_download_url :: "string option"
  b_last_updated :: "nat option"

record author_row =
  author_id :: nat
  author_name :: string

record book_author_row =
  ba_book_id :: nat
  ba_author_id :: nat
  author_position :: nat

record category_row =
  category_id :: nat
  category_name :: string

record book_category_row =
  bc_book_id :: nat
  bc_category_id :: nat

record source_row =
  source_id :: nat
  source_name :: string
  base_url :: string
  is_active :: bool
  last_scraped :: "nat option"

datatype run_status = running | completed | failed

record log_row =
  log_id :: nat
  l_source_id :: nat
  l_status :: run_status
  l_started_at :: nat
  l_completed_at :: "nat option"
  l_books_added :: "nat option"
  l_books_updated :: "nat option"
  l_errors :: "nat option"
  l_error_details :: "string option"

record tables =
  tbl_books :: "book_row list"
  tbl_authors :: "author_row list"
  tbl_book_authors :: "book_author_row list"
  tbl_categories :: "category_row list"
  tbl_book_categories :: "book_category_row list"
  tbl_sources :: "source_row list"
  tbl_scraping_logs :: "log_row list"

text \<open>
  The store is PostgreSQL, reached through a pool of connections. Its state: the current
  tables; the tables as they were at \<^verbatim>\<open>BEGIN\<close>, while the transaction of
  \<^verbatim>\<open>saveBooks\<close> is open; and whether that transaction is aborted, which it is from
  the first statement that raises in it until it ends.
\<close>

record db =
  tables :: tables
  snapshot :: "tables option"
  aborted :: bool

text \<open>The argument of \<^verbatim>\<open>updateScrapingLog\<close>.\<close>

record log_update =
  u_completed_at :: "nat option"
  u_books_added :: "nat option"
  u_books_updated :: "nat option"
  u_errors :: "nat option"
  u_status :: "run_status option"
  u_error_details :: "string option"

text \<open>Every statement the service sends, with its parameters.\<close>

datatype stmt =
    Connect
  | Begin
  | Commit
  | Rollback
  | SelectBookByIsbn string
  | SelectBookByTitleYear string int
  | SelectBookByTitle string
  | UpdateBook ScrapedBook nat
  | InsertBook ScrapedBook nat
  | DeleteBookAuthors nat
  | SelectAuthor string
  | InsertAuthor string
  | UpsertBookAuthor nat nat nat
  | SelectCategory string
  | InsertCategory string
  | InsertBookCategory nat nat
  | TouchSource nat
  | SelectSource string
  | InsertSource string string
  | InsertLog nat
  | UpdateLog nat log_update

text \<open>An exception, with its message.\<close>

datatype error = Error string

text \<open>
  Which statement the store rejects in which state is not decided by the service: it is
  the parameter \<open>fault\<close>, giving the message of the error raised, if any.
\<close>

type_synonym faults = "stmt \<Rightarrow> db \<Rightarrow> string option"

type_synonym 'a io = "db \<Rightarrow> (error + 'a) \<times> db"

definition return :: "'a \<Rightarrow> 'a io" where
  "return x d = (Inr x, d)"

definition andThen :: "'a io \<Rightarrow> ('a \<Rightarrow> 'b io) \<Rightarrow> 'b io" where
  "andThen m f d = (case m d of (Inl e, d') \<Rightarrow> (Inl e, d') | (Inr x, d') \<Rightarrow> f x d')"

text \<open>
  \<^verbatim>\<open>client.query\<close> on the connection of \<^verbatim>\<open>saveBooks\<close>. A statement that raises
  changes no table; inside a transaction it aborts the transaction.
\<close>

definition clientQuery :: "faults \<Rightarrow> stmt \<Rightarrow> (tables \<Rightarrow> 'a \<times> tables) \<Rightarrow> 'a io" where
  "clientQuery fault q run d =
     (case fault q d of
        Some msg \<Rightarrow> (Inl (Error msg), if snapshot d = None then d else d\<lparr>aborted := True\<rparr>)
      | None \<Rightarrow> (case run (tables d) of (x, t) \<Rightarrow> (Inr x, d\<lparr>tables := t\<rparr>)))"

text \<open>
  In an aborted transaction PostgreSQL rejects every statement but those that end the
  transaction. \<open>postgres fault\<close> is the store that rejects what \<open>fault\<close> rejects and
  obeys this rule; it is the store \<^verbatim>\<open>saveBooks\<close> talks to.
\<close>

definition abortedMessage :: string where
  "abortedMessage = ''current transaction is aborted, commands ignored until end of transaction block''"

definition endsTransaction :: "stmt \<Rightarrow> bool" where
  "endsTransaction q = (case q of Commit \<Rightarrow> True | Rollback \<Rightarrow> True | _ \<Rightarrow> False)"

definition postgres :: "faults \<Rightarrow> faults" where
  "postgres fault q d =
     (if aborted d \<and> \<not> endsTransaction q then Some abortedMessage else fault q d)"

text \<open>
  \<^verbatim>\<open>pool.query\<close>, and \<^verbatim>\<open>client.query\<close> on a connection with no transaction open:
  the statement is committed at once, and changes nothing when it raises.
\<close>

definition poolQuery :: "faults \<Rightarrow> stmt \<Rightarrow> (tables \<Rightarrow> 'a \<times> tables) \<Rightarrow> 'a io" where
  "poolQuery fault q run d =
     (case fault q d of
        Some msg \<Rightarrow> (Inl (Error msg), d)
      | None \<Rightarrow> (case run (tables d) of (x, t) \<Rightarrow> (Inr x, d\<lparr>tables := t\<rparr>)))"

text \<open>
  \<^verbatim>\<open>pool.connect()\<close>, \<^verbatim>\<open>BEGIN\<close>, \<^verbatim>\<open>COMMIT\<close> and \<^verbatim>\<open>ROLLBACK\<close>. The
  connection taken from the pool has no transaction open. \<^verbatim>\<open>COMMIT\<close> keeps the
  current tables, unless the transaction is aborted: then it does what
  \<^verbatim>\<open>ROLLBACK\<close> does, and raises nothing. \<^verbatim>\<open>ROLLBACK\<close> returns to the tables
  saved at \<^verbatim>\<open>BEGIN\<close>.
\<close>

definition control :: "faults \<Rightarrow> stmt \<Rightarrow> (db \<Rightarrow> db) \<Rightarrow> unit io" where
  "control fault q run d =
     (case fault q d of Some msg \<Rightarrow> (Inl (Error msg), d) | None \<Rightarrow> (Inr (), run d))"

definition sqlConnect :: "db \<Rightarrow> db" where
  "sqlConnect d = d\<lparr>snapshot := None, aborted := False\<rparr>"

definition sqlBegin :: "db \<Rightarrow> db" where
  "sqlBegin d = d\<lparr>snapshot := Some (tables d), aborted := False\<rparr>"

definition sqlRollback :: "db \<Rightarrow> db" where
  "sqlRollback d =
     (case snapshot d of
        None \<Rightarrow> d\<lparr>aborted := False\<rparr>
      | Some t \<Rightarrow> \<lparr>tables = t, snapshot = None, aborted = False\<rparr>)"

definition sqlCommit :: "db \<Rightarrow> db" where
  "sqlCommit d = (if aborted d then sqlRollback d else d\<lparr>snapshot := None\<rparr>)"

text \<open>A key generated by the store: larger than every key in the table.\<close>

definition freshId :: "nat list \<Rightarrow> nat" where
  "freshId ids = Suc (foldr max ids 0)"

text \<open>\<^verbatim>\<open>result.rows[0]\<close>\<close>

definition firstRow :: "'a list \<Rightarrow> 'a option" where
  "firstRow rows = (case rows of [] \<Rightarrow> None | r # _ \<Rightarrow> Some r)"

text \<open>\<^verbatim>\<open>COALESCE($n, column)\<close>\<close>

definition coalesce :: "'a option \<Rightarrow> 'a option \<Rightarrow> 'a option" where
  "coalesce a b = (case a of Some x \<Rightarrow> Some x | None \<Rightarrow> b)"

subsection \<open>Statements on books\<close>

definition sqlSelectBookByIsbn :: "string \<Rightarrow> tables \<Rightarrow> nat list \<times> tables" where
  "sqlSelectBookByIsbn i t = (map book_id (filter (\<lambda>r. b_isbn r = Some i) (tbl_books t)), t)"

definition sqlSelectBookByTitleYear :: "string \<Rightarrow> int \<Rightarrow> tables \<Rightarrow> nat list \<times> tables" where
  "sqlSelectBookByTitleYear ti y t =
     (map book_id (filter (\<lambda>r. b_title r = ti \<and> b_publication_year r = Some y) (tbl_books t)), t)"

definition sqlSelectBookByTitle :: "string \<Rightarrow> tables \<Rightarrow> nat list \<times> tables" where
  "sqlSelectBookByTitle ti t = (map book_id (filter (\<lambda>r. b_title r = ti) (tbl_books t)), t)"

definition updateRow :: "nat \<Rightarrow> ScrapedBook \<Rightarrow> book_row \<Rightarrow> book_row" where
  "updateRow now book r =
     r\<lparr> b_subtitle := coalesce (subtitle book) (b_subtitle r),
        b_publisher := coalesce (publisher book) (b_publisher r),
        b_pages := coalesce (pages book) (b_pages r),
        b_description := coalesce (description book) (b_description r),
        b_cover_image_url := coalesce (cover_image_url book) (b_cover_image_url r),
        b_isbn := coalesce (isbn book) (b_isbn r),
        b_last_updated := Some now \<rparr>"

definition sqlUpdateBook :: "nat \<Rightarrow> ScrapedBook \<Rightarrow> nat \<Rightarrow> tables \<Rightarrow> unit \<times> tables" where
  "sqlUpdateBook now book bookId t =
     ((), t\<lparr>tbl_books := map (\<lambda>r. if book_id r = bookId then updateRow now book r else r) (tbl_books t)\<rparr>)"

definition insertedRow :: "nat \<Rightarrow> ScrapedBook \<Rightarrow> nat \<Rightarrow> book_row" where
  "insertedRow bookId book sourceId =
     \<lparr> book_id = bookId,
       b_title = title book,
       b_subtitle = subtitle book,
       b_isbn = isbn book,
       b_publication_year = publication_year book,
       b_publisher = publisher book,
       b_pages = pages book,
       b_language = orDefault (language book) ''English'',
       b_description = description book,
       b_cover_image_url = cover_image_url book,
       b_source_id = sourceId,
       b_source_url = source_url book,
       b_pdf_url = pdf_url book,
       b_download_url = download_url book,
       b_last_updated = None \<rparr>"

definition sqlInsertBook :: "ScrapedBook \<Rightarrow> nat \<Rightarrow> tables \<Rightarrow> nat \<times> tables" where
  "sqlInsertBook book sourceId t =
     (let bookId = freshId (map book_id (tbl_books t))
      in (bookId, t\<lparr>tbl_books := tbl_books t @ [insertedRow bookId book sourceId]\<rparr>))"

subsection \<open>Statements on authors and categories\<close>

definition sqlDeleteBookAuthors :: "nat \<Rightarrow> tables \<Rightarrow> unit \<times> tables" where
  "sqlDeleteBookAuthors bookId t =
     ((), t\<lparr>tbl_book_authors := filter (\<lambda>r. ba_book_id r \<noteq> bookId) (tbl_book_authors t)\<rparr>)"

definition sqlSelectAuthor :: "string \<Rightarrow> tables \<Rightarrow> nat list \<times> tables" where
  "sqlSelectAuthor name t =
     (map author_id (filter (\<lambda>r. author_name r = name) (tbl_authors t)), t)"

definition sqlInsertAuthor :: "string \<Rightarrow> tables \<Rightarrow> nat \<times> tables" where
  "sqlInsertAuthor name t =
     (let authorId = freshId (map author_id (tbl_authors t))
      in (authorId,
          t\<lparr>tbl_authors := tbl_authors t @ [\<lparr>author_id = authorId, author_name = name\<rparr>]\<rparr>))"

text \<open>
  \<^verbatim>\<open>INSERT ... ON CONFLICT (book_id, author_id) DO UPDATE SET author_position = $3\<close>
\<close>

definition sqlUpsertBookAuthor :: "nat \<Rightarrow> nat \<Rightarrow> nat \<Rightarrow> tables \<Rightarrow> unit \<times> tables" where
  "sqlUpsertBookAuthor bookId authorId pos t =
     ((), t\<lparr>tbl_book_authors :=
        (if list_ex (\<lambda>r. ba_book_id r = bookId \<and> ba_author_id r = authorId) (tbl_book_authors t)
         then map (\<lambda>r. if ba_book_id r = bookId \<and> ba_author_id r = authorId
                        then r\<lparr>author_position := pos\<rparr> else r) (tbl_book_authors t)
         else tbl_book_authors t @
                [\<lparr>ba_book_id = bookId, ba_author_id = authorId, author_position = pos\<rparr>])\<rparr>)"

definition sqlSelectCategory :: "string \<Rightarrow> tables \<Rightarrow> nat list \<times> tables" where
  "sqlSelectCategory name t =
     (map category_id (filter (\<lambda>r. category_name r = name) (tbl_categories t)), t)"

definition sqlInsertCategory :: "string \<Rightarrow> tables \<Rightarrow> nat \<times> tables" where
  "sqlInsertCategory name t =
     (let categoryId = freshId (map category_id (tbl_categories t))
      in (categoryId,
          t\<lparr>tbl_categories :=
               tbl_categories t @ [\<lparr>category_id = categoryId, category_name = name\<rparr>]\<rparr>))"

text \<open>\<^verbatim>\<open>INSERT ... ON CONFLICT (book_id, category_id) DO NOTHING\<close>\<close>

definition sqlInsertBookCategory :: "nat \<Rightarrow> nat \<Rightarrow> tables \<Rightarrow> unit \<times> tables" where
  "sqlInsertBookCategory bookId categoryId t =
     ((), t\<lparr>tbl_book_categories :=
        (if list_ex (\<lambda>r. bc_book_id r = bookId \<and> bc_category_id r = categoryId)
              (tbl_book_categories t)
         then tbl_book_categories t
         else tbl_book_categories t @ [\<lparr>bc_book_id = bookId, bc_category_id = categoryId\<rparr>])\<rparr>)"

definition getOrCreateAuthor :: "faults \<Rightarrow> string \<Rightarrow> nat io" where
  "getOrCreateAuthor fault authorName =
     andThen (clientQuery fault (SelectAuthor authorName) (sqlSelectAuthor authorName))
       (\<lambda>rows. case rows of
          a # _ \<Rightarrow> return a
        | [] \<Rightarrow> clientQuery fault (InsertAuthor authorName) (sqlInsertAuthor authorName))"

definition getOrCreateCategory :: "faults \<Rightarrow> string \<Rightarrow> nat io" where
  "getOrCreateCategory fault categoryName =
     andThen (clientQuery fault (SelectCategory categoryName) (sqlSelectCategory categoryName))
       (\<lambda>rows. case rows of
          c # _ \<Rightarrow> return c
        | [] \<Rightarrow> clientQuery fault (InsertCategory categoryName) (sqlInsertCategory categoryName))"


section \<open>The dedup/upsert engine: saveBooks\<close>

text \<open>
  Step 1 of the loop body: the lookup of an existing book, one definition for each of the
  three \<^verbatim>\<open>if\<close> blocks. Each query is guarded by the truthiness of the candidate's
  key, and the later ones also by \<^verbatim>\<open>!existingBook\<close>.
\<close>

definition lookupByIsbn :: "faults \<Rightarrow> ScrapedBook \<Rightarrow> nat option io" where
  "lookupByIsbn fault book =
     (case isbn book of
        None \<Rightarrow> return None
      | Some i \<Rightarrow>
          if i = [] then return None
          else andThen (clientQuery fault (SelectBookByIsbn i) (sqlSelectBookByIsbn i))
                 (\<lambda>rows. return (firstRow rows)))"

definition lookupByTitleYear :: "faults \<Rightarrow> ScrapedBook \<Rightarrow> nat option \<Rightarrow> nat option io" where
  "lookupByTitleYear fault book existingBook =
     (case publication_year book of
        None \<Rightarrow> return existingBook
      | Some y \<Rightarrow>
          if existingBook = None \<and> title book \<noteq> [] \<and> y \<noteq> 0
          then andThen (clientQuery fault (SelectBookByTitleYear (title book) y)
                          (sqlSelectBookByTitleYear (title book) y))
                 (\<lambda>rows. return (firstRow rows))
          else return existingBook)"

definition lookupByTitle :: "faults \<Rightarrow> ScrapedBook \<Rightarrow> nat option \<Rightarrow> nat option io" where
  "lookupByTitle fault book existingBook =
     (if existingBook = None \<and> title book \<noteq> []
      then andThen (clientQuery fault (SelectBookByTitle (title book))
                      (sqlSelectBookByTitle (title book)))
             (\<lambda>rows. return (firstRow rows))
      else return existingBook)"

definition findExisting :: "faults \<Rightarrow> ScrapedBook \<Rightarrow> nat option io" where
  "findExisting fault book =
     andThen (lookupByIsbn fault book)
       (\<lambda>existingBook. andThen (lookupByTitleYear fault book existingBook)
          (\<lambda>existingBook. lookupByTitle fault book existingBook))"

text \<open>
  Steps 1 and 2: the lookup, then the update of the book found or the insert of a new
  one. The result says whether a book existed, and gives \<^verbatim>\<open>bookId\<close>.
\<close>

definition upsertBook :: "faults \<Rightarrow> nat \<Rightarrow> nat \<Rightarrow> ScrapedBook \<Rightarrow> (bool \<times> nat) io" where
  "upsertBook fault now sourceId book =
     andThen (findExisting fault book)
       (\<lambda>existingBook.
          case existingBook of
            Some bookId \<Rightarrow>
              andThen (clientQuery fault (UpdateBook book bookId) (sqlUpdateBook now book bookId))
                (\<lambda>_. return (True, bookId))
          | None \<Rightarrow>
              andThen (clientQuery fault (InsertBook book sourceId) (sqlInsertBook book sourceId))
                (\<lambda>bookId. return (False, bookId)))"

text \<open>
  Step 3. The loop over \<^verbatim>\<open>book.authors\<close> from index \<open>i\<close>; the position written
  is \<open>i + 1\<close>.
\<close>

fun linkAuthorsFrom :: "faults \<Rightarrow> nat \<Rightarrow> nat \<Rightarrow> string list \<Rightarrow> unit io" where
  "linkAuthorsFrom fault bookId i [] = return ()"
| "linkAuthorsFrom fault bookId i (authorName # rest) =
     andThen
       (if authorName \<noteq> [] \<and> trim authorName \<noteq> []
        then andThen (getOrCreateAuthor fault (trim authorName))
               (\<lambda>authorId. clientQuery fault (UpsertBookAuthor bookId authorId (i + 1))
                              (sqlUpsertBookAuthor bookId authorId (i + 1)))
        else return ())
       (\<lambda>_. linkAuthorsFrom fault bookId (i + 1) rest)"

definition relinkAuthors :: "faults \<Rightarrow> nat \<Rightarrow> string list \<Rightarrow> unit io" where
  "relinkAuthors fault bookId authorNames =
     andThen (clientQuery fault (DeleteBookAuthors bookId) (sqlDeleteBookAuthors bookId))
       (\<lambda>_. linkAuthorsFrom fault bookId 0 authorNames)"

definition linkAuthors :: "faults \<Rightarrow> nat \<Rightarrow> ScrapedBook \<Rightarrow> unit io" where
  "linkAuthors fault bookId book =
     (if authors book \<noteq> [] then relinkAuthors fault bookId (authors book) else return ())"

text \<open>Step 4.\<close>

fun relinkCategories :: "faults \<Rightarrow> nat \<Rightarrow> string list \<Rightarrow> unit io" where
  "relinkCategories fault bookId [] = return ()"
| "relinkCategories fault bookId (categoryName # rest) =
     andThen
       (if categoryName \<noteq> [] \<and> trim categoryName \<noteq> []
        then andThen (getOrCreateCategory fault (trim categoryName))
               (\<lambda>categoryId. clientQuery fault (InsertBookCategory bookId categoryId)
                                (sqlInsertBookCategory bookId categoryId))
        else return ())
       (\<lambda>_. relinkCategories fault bookId rest)"

definition linkCategories :: "faults \<Rightarrow> nat \<Rightarrow> ScrapedBook \<Rightarrow> unit io" where
  "linkCategories fault bookId book =
     (if categories book \<noteq> [] then relinkCategories fault bookId (categories book)
      else return ())"

text \<open>
  The body of the inner \<^verbatim>\<open>try\<close>, for one candidate: it ends at the first statement
  that raises, nothing in it catching an error. The counters
  \<^verbatim>\<open>(booksAdded, booksUpdated)\<close> are variables of the function, so what the body did
  to them before it raised stays.
\<close>

definition tryBody ::
  "faults \<Rightarrow> nat \<Rightarrow> nat \<Rightarrow> ScrapedBook \<Rightarrow> nat \<times> nat \<Rightarrow> db \<Rightarrow> (error + unit) \<times> (nat \<times> nat) \<times> db" where
  "tryBody fault now sourceId book counts d =
     (case upsertBook fault now sourceId book d of
        (Inl e, d1) \<Rightarrow> (Inl e, counts, d1)
      | (Inr (existed, bookId), d1) \<Rightarrow>
          (let counts1 = (if existed then (fst counts, snd counts + 1)
                          else (fst counts + 1, snd counts))
           in case andThen (linkAuthors fault bookId book)
                     (\<lambda>_. linkCategories fault bookId book) d1 of
                (r, d2) \<Rightarrow> (r, counts1, d2)))"

text \<open>
  The loop: the inner \<^verbatim>\<open>catch\<close> logs the error and goes on with the next candidate,
  so the outcome of the body is dropped and its state is kept. No savepoint is set and
  nothing is rolled back there: a transaction that the body aborted stays aborted.
\<close>

fun saveLoop ::
  "faults \<Rightarrow> nat \<Rightarrow> nat \<Rightarrow> ScrapedBook list \<Rightarrow> (nat \<times> nat) \<times> db \<Rightarrow> (nat \<times> nat) \<times> db" where
  "saveLoop fault now sourceId [] s = s"
| "saveLoop fault now sourceId (book # books) (counts, d) =
     saveLoop fault now sourceId books (snd (tryBody fault now sourceId book counts d))"

definition sqlTouchSource :: "nat \<Rightarrow> nat \<Rightarrow> tables \<Rightarrow> unit \<times> tables" where
  "sqlTouchSource now sourceId t =
     ((), t\<lparr>tbl_sources :=
        map (\<lambda>r. if source_id r = sourceId then r\<lparr>last_scraped := Some now\<rparr> else r)
          (tbl_sources t)\<rparr>)"

text \<open>
  \<^verbatim>\<open>saveBooks\<close>: the connection is taken before the outer \<^verbatim>\<open>try\<close>; the outer
  \<^verbatim>\<open>catch\<close> sends \<^verbatim>\<open>ROLLBACK\<close> and throws the error again (or the error of the
  rollback, if that raises). Every statement from \<^verbatim>\<open>BEGIN\<close> on goes to the store
  \<open>postgres fault\<close>.
\<close>

definition saveBooks :: "faults \<Rightarrow> nat \<Rightarrow> ScrapedBook list \<Rightarrow> nat \<Rightarrow> (nat \<times> nat) io" where
  "saveBooks fault now books sourceId d0 =
     (case control fault Connect sqlConnect d0 of
        (Inl e, d) \<Rightarrow> (Inl e, d)
      | (Inr _, d) \<Rightarrow>
          (case (case control (postgres fault) Begin sqlBegin d of
                   (Inl e, d1) \<Rightarrow> (Inl e, d1)
                 | (Inr _, d1) \<Rightarrow>
                     (case saveLoop (postgres fault) now sourceId books ((0, 0), d1) of
                        (counts, d2) \<Rightarrow>
                          andThen (control (postgres fault) Commit sqlCommit)
                            (\<lambda>_. andThen (clientQuery (postgres fault) (TouchSource sourceId)
                                            (sqlTouchSource now sourceId))
                                   (\<lambda>_. return counts)) d2)) of
             (Inr r, d3) \<Rightarrow> (Inr r, d3)
           | (Inl e, d3) \<Rightarrow>
               (case control (postgres fault) Rollback sqlRollback d3 of
                  (Inl e', d4) \<Rightarrow> (Inl e', d4)
                | (Inr _, d4) \<Rightarrow> (Inl e, d4))))"

text \<open>
  The specification's wording of the lookup, for comparison with the code: the first
  satisfied rule of the cascade ISBN exact match, then (title, publication year) exact
  match, then title-only exact match. A rule applies when the candidate supplies its
  key: a non-empty ISBN; a non-empty title with a non-zero year; a non-empty title.
\<close>

definition matchByIsbn :: "ScrapedBook \<Rightarrow> book_row list \<Rightarrow> nat option" where
  "matchByIsbn book rows =
     (if truthyStr (isbn book)
      then firstRow (map book_id (filter (\<lambda>r. b_isbn r = isbn book) rows)) else None)"

definition matchByTitleYear :: "ScrapedBook \<Rightarrow> book_row list \<Rightarrow> nat option" where
  "matchByTitleYear book rows =
     (if title book \<noteq> [] \<and> truthyNum (publication_year book)
      then firstRow (map book_id
             (filter (\<lambda>r. b_title r = title book \<and> b_publication_year r = publication_year book)
                rows))
      else None)"

definition matchByTitle :: "ScrapedBook \<Rightarrow> book_row list \<Rightarrow> nat option" where
  "matchByTitle book rows =
     (if title book \<noteq> [] then firstRow (map book_id (filter (\<lambda>r. b_title r = title book) rows))
      else None)"

definition findBookId_spec :: "ScrapedBook \<Rightarrow> book_row list \<Rightarrow> nat option" where
  "findBookId_spec book rows =
     (case matchByIsbn book rows of
        Some b \<Rightarrow> Some b
      | None \<Rightarrow>
          (case matchByTitleYear book rows of
             Some b \<Rightarrow> Some b
           | None \<Rightarrow> matchByTitle book rows))"

text \<open>A store that rejects no statement.\<close>

definition noFaults :: faults where
  "noFaults q d = None"


section \<open>The ingestion orchestrator\<close>

text \<open>
  What the network answers is not decided by the service: the response to each request is
  a parameter, \<open>Inl\<close> the message of the error the request raised. A response is given as
  the elements the adapter iterates over.
\<close>

record network =
  fetchOpenLibrary :: "string \<Rightarrow> nat \<Rightarrow> string + ol_work list"
  fetchGoogleBooks :: "string \<Rightarrow> nat \<Rightarrow> string + gb_volumeInfo option list"
  fetchGutenberg :: "string \<Rightarrow> string + gutenberg_entry list"
  fetchCustom :: "string \<Rightarrow> string + (string \<Rightarrow> custom_item list)"
  net_resolveUrl :: "string \<Rightarrow> string \<Rightarrow> string option"

definition scrapeOpenLibrary :: "network \<Rightarrow> string \<Rightarrow> nat \<Rightarrow> error + ScrapedBook list" where
  "scrapeOpenLibrary net subject limit =
     (case fetchOpenLibrary net subject limit of
        Inl message \<Rightarrow> Inl (Error (''Open Library scraping failed: '' @ message))
      | Inr works \<Rightarrow> Inr (openLibraryBooks subject works))"

definition scrapeGoogleBooks :: "network \<Rightarrow> string \<Rightarrow> nat \<Rightarrow> error + ScrapedBook list" where
  "scrapeGoogleBooks net query maxResults =
     (case fetchGoogleBooks net query maxResults of
        Inl message \<Rightarrow> Inl (Error (''Google Books scraping failed: '' @ message))
      | Inr items \<Rightarrow> Inr (googleBooksBooks items))"

definition scrapeProjectGutenberg :: "network \<Rightarrow> string \<Rightarrow> error + ScrapedBook list" where
  "scrapeProjectGutenberg net searchTerm =
     (case fetchGutenberg net searchTerm of
        Inl message \<Rightarrow> Inl (Error (''Project Gutenberg scraping failed: '' @ message))
      | Inr entries \<Rightarrow> Inr (gutenbergBooks searchTerm entries))"

definition scrapeCustomWebsite ::
  "network \<Rightarrow> string \<Rightarrow> CustomSelectors \<Rightarrow> error + ScrapedBook list" where
  "scrapeCustomWebsite net url selectors =
     (case fetchCustom net url of
        Inl message \<Rightarrow> Inl (Error (''Custom website scraping failed: '' @ message))
      | Inr page \<Rightarrow>
          Inr (customBooks (net_resolveUrl net) url selectors (page (sel_container selectors))))"

text \<open>The \<^verbatim>\<open>type\<close> argument; a string outside the four known ones reaches the default case.\<close>

datatype scrape_type = openlibrary | googlebooks | gutenberg | custom | other_type string

text \<open>Step 3 of \<^verbatim>\<open>scrapeAndSave\<close>: the \<^verbatim>\<open>switch\<close> over the type.\<close>

definition runAdapter ::
  "network \<Rightarrow> scrape_type \<Rightarrow> string \<Rightarrow> CustomSelectors option \<Rightarrow> error + ScrapedBook list" where
  "runAdapter net type query customSelectors =
     (case type of
        openlibrary \<Rightarrow> scrapeOpenLibrary net query 20
      | googlebooks \<Rightarrow> scrapeGoogleBooks net query 20
      | gutenberg \<Rightarrow> scrapeProjectGutenberg net query
      | custom \<Rightarrow>
          (case customSelectors of
             None \<Rightarrow> Inl (Error ''Custom selectors required for custom scraping'')
           | Some selectors \<Rightarrow> scrapeCustomWebsite net query selectors)
      | other_type t \<Rightarrow> Inl (Error (''Unknown scraping type: '' @ t)))"

definition sqlSelectSource :: "string \<Rightarrow> tables \<Rightarrow> nat list \<times> tables" where
  "sqlSelectSource name t =
     (map source_id (filter (\<lambda>r. source_name r = name) (tbl_sources t)), t)"

definition sqlInsertSource :: "string \<Rightarrow> string \<Rightarrow> tables \<Rightarrow> nat \<times> tables" where
  "sqlInsertSource name url t =
     (let sourceId = freshId (map source_id (tbl_sources t))
      in (sourceId,
          t\<lparr>tbl_sources := tbl_sources t @
               [\<lparr>source_id = sourceId, source_name = name, base_url = url, is_active = True,
                 last_scraped = None\<rparr>]\<rparr>))"

definition getOrCreateSource :: "faults \<Rightarrow> string \<Rightarrow> string \<Rightarrow> nat io" where
  "getOrCreateSource fault sourceName baseUrl =
     andThen (control fault Connect id)
       (\<lambda>_. andThen (poolQuery fault (SelectSource sourceName) (sqlSelectSource sourceName))
          (\<lambda>rows. case rows of
             s # _ \<Rightarrow> return s
           | [] \<Rightarrow> poolQuery fault (InsertSource sourceName baseUrl)
                     (sqlInsertSource sourceName baseUrl)))"

definition sqlInsertLog :: "nat \<Rightarrow> nat \<Rightarrow> tables \<Rightarrow> nat \<times> tables" where
  "sqlInsertLog now sourceId t =
     (let logId = freshId (map log_id (tbl_scraping_logs t))
      in (logId,
          t\<lparr>tbl_scraping_logs := tbl_scraping_logs t @
               [\<lparr>log_id = logId, l_source_id = sourceId, l_status = running,
                 l_started_at = now, l_completed_at = None, l_books_added = None,
                 l_books_updated = None, l_errors = None, l_error_details = None\<rparr>]\<rparr>))"

definition createScrapingLog :: "faults \<Rightarrow> nat \<Rightarrow> nat \<Rightarrow> nat io" where
  "createScrapingLog fault now sourceId = poolQuery fault (InsertLog sourceId) (sqlInsertLog now sourceId)"

text \<open>
  \<^verbatim>\<open>updateScrapingLog\<close> sets the columns its argument gives: the first four when they
  are defined, the status and the error details when they are truthy. With nothing to
  set it sends no statement.
\<close>

definition applyLogUpdate :: "log_update \<Rightarrow> log_row \<Rightarrow> log_row" where
  "applyLogUpdate data r =
     r\<lparr> l_completed_at := (case u_completed_at data of None \<Rightarrow> l_completed_at r | Some c \<Rightarrow> Some c),
        l_books_added := (case u_books_added data of None \<Rightarrow> l_books_added r | Some n \<Rightarrow> Some n),
        l_books_updated :=
          (case u_books_updated data of None \<Rightarrow> l_books_updated r | Some n \<Rightarrow> Some n),
        l_errors := (case u_errors data of None \<Rightarrow> l_errors r | Some n \<Rightarrow> Some n),
        l_status := (case u_status data of None \<Rightarrow> l_status r | Some st \<Rightarrow> st),
        l_error_details :=
          (if truthyStr (u_error_details data) then u_error_details data else l_error_details r) \<rparr>"

definition sqlUpdateLog :: "nat \<Rightarrow> log_update \<Rightarrow> tables \<Rightarrow> unit \<times> tables" where
  "sqlUpdateLog logId data t =
     ((), t\<lparr>tbl_scraping_logs :=
        map (\<lambda>r. if log_id r = logId then applyLogUpdate data r else r) (tbl_scraping_logs t)\<rparr>)"

definition updateScrapingLog :: "faults \<Rightarrow> nat \<Rightarrow> log_update \<Rightarrow> unit io" where
  "updateScrapingLog fault logId data =
     (if u_completed_at data = None \<and> u_books_added data = None \<and> u_books_updated data = None \<and>
         u_errors data = None \<and> u_status data = None \<and> \<not> truthyStr (u_error_details data)
      then return ()
      else poolQuery fault (UpdateLog logId data) (sqlUpdateLog logId data))"

text \<open>The interface \<^verbatim>\<open>ScrapingResult\<close>.\<close>

record ScrapingResult =
  r_log_id :: nat
  r_source_id :: nat
  books_added :: nat
  books_updated :: nat
  errors :: nat
  status :: run_status
  error_details :: "string option"

definition failedResult :: "nat \<Rightarrow> nat \<Rightarrow> string \<Rightarrow> ScrapingResult" where
  "failedResult logId sourceId message =
     \<lparr> r_log_id = logId, r_source_id = sourceId, books_added = 0, books_updated = 0,
       errors = 1, status = failed, error_details = Some message \<rparr>"

text \<open>
  The \<^verbatim>\<open>catch\<close> block of \<^verbatim>\<open>scrapeAndSave\<close>, with the values \<^verbatim>\<open>logId\<close> and
  \<^verbatim>\<open>sourceId\<close> had when the error was raised (\<open>None\<close> for \<^verbatim>\<open>null\<close>). The update of
  the log is awaited outside any \<^verbatim>\<open>try\<close>: an error it raises leaves the function.
\<close>

definition failedRun :: "faults \<Rightarrow> nat \<Rightarrow> nat option \<Rightarrow> nat option \<Rightarrow> error \<Rightarrow> ScrapingResult io" where
  "failedRun fault now logId sourceId err =
     (case err of
        Error message \<Rightarrow>
          andThen
            (case logId of
               None \<Rightarrow> return ()
             | Some l \<Rightarrow>
                 if l = 0 then return ()
                 else updateScrapingLog fault l
                        \<lparr> u_completed_at = Some now, u_books_added = None, u_books_updated = None,
                          u_errors = Some 1, u_status = Some failed,
                          u_error_details = Some message \<rparr>)
            (\<lambda>_. return (failedResult (case logId of None \<Rightarrow> 0 | Some l \<Rightarrow> l)
                            (case sourceId of None \<Rightarrow> 0 | Some i \<Rightarrow> i) message)))"

text \<open>Steps 3 to 5 of the \<^verbatim>\<open>try\<close> block, once the source and the log exist.\<close>

definition scrapeSaveAndClose ::
  "network \<Rightarrow> faults \<Rightarrow> nat \<Rightarrow> scrape_type \<Rightarrow> string \<Rightarrow> CustomSelectors option \<Rightarrow> nat \<Rightarrow> nat \<Rightarrow>
     ScrapingResult io" where
  "scrapeSaveAndClose net fault now type query customSelectors sourceId logId d =
     (case runAdapter net type query customSelectors of
        Inl e \<Rightarrow> (Inl e, d)
      | Inr books \<Rightarrow>
          andThen (saveBooks fault now books sourceId)
            (\<lambda>counts.
               andThen
                 (updateScrapingLog fault logId
                    \<lparr> u_completed_at = Some now, u_books_added = Some (fst counts),
                      u_books_updated = Some (snd counts), u_errors = None,
                      u_status = Some completed, u_error_details = None \<rparr>)
                 (\<lambda>_. return
                    \<lparr> r_log_id = logId, r_source_id = sourceId, books_added = fst counts,
                      books_updated = snd counts, errors = 0, status = completed,
                      error_details = None \<rparr>)) d)"

definition scrapeAndSave ::
  "network \<Rightarrow> faults \<Rightarrow> nat \<Rightarrow> scrape_type \<Rightarrow> string \<Rightarrow> string \<Rightarrow> string \<Rightarrow>
     CustomSelectors option \<Rightarrow> ScrapingResult io" where
  "scrapeAndSave net fault now type query sourceName baseUrl customSelectors d =
     (case getOrCreateSource fault sourceName baseUrl d of
        (Inl e, d1) \<Rightarrow> failedRun fault now None None e d1
      | (Inr sourceId, d1) \<Rightarrow>
          (case createScrapingLog fault now sourceId d1 of
             (Inl e, d2) \<Rightarrow> failedRun fault now None (Some sourceId) e d2
           | (Inr logId, d2) \<Rightarrow>
               (case scrapeSaveAndClose net fault now type query customSelectors sourceId logId d2 of
                  (Inl e, d3) \<Rightarrow> failedRun fault now (Some logId) (Some sourceId) e d3
                | (Inr result, d3) \<Rightarrow> (Inr result, d3))))"

subsection \<open>The batch driver\<close>

record source_spec =
  s_type :: scrape_type
  s_query :: string
  s_sourceName :: string
  s_baseUrl :: string
  s_customSelectors :: "CustomSelectors option"

text \<open>The numbers of the summary the driver prints.\<close>

record summary =
  sources_processed :: nat
  successful :: nat
  failed_sources :: nat
  total_added :: nat
  total_updated :: nat
  total_errors :: nat

text \<open>
  What the driver does besides returning: it announces each source, waits, and prints the
  summary.
\<close>

datatype effect = Processing string | Delay nat | Summary summary

text \<open>
  The call of \<^verbatim>\<open>scrapeAndSave\<close> for one source; then one iteration of the loop,
  \<open>isLast\<close> being \<^verbatim>\<open>i = sources.length - 1\<close>: the result
  pushed, the effects of the iteration, and the store.
\<close>

definition scrapeSource :: "network \<Rightarrow> faults \<Rightarrow> nat \<Rightarrow> source_spec \<Rightarrow> ScrapingResult io" where
  "scrapeSource net fault now source =
     scrapeAndSave net fault now (s_type source) (s_query source) (s_sourceName source)
       (s_baseUrl source) (s_customSelectors source)"

definition scrapeOne ::
  "network \<Rightarrow> faults \<Rightarrow> nat \<Rightarrow> source_spec \<Rightarrow> bool \<Rightarrow> db \<Rightarrow> ScrapingResult \<times> effect list \<times> db" where
  "scrapeOne net fault now source isLast d =
     (case scrapeSource net fault now source d of
        (Inr result, d') \<Rightarrow>
          (result,
           Processing (s_sourceName source) # (if isLast then [] else [Delay 2000]), d')
      | (Inl (Error message), d') \<Rightarrow>
          (failedResult 0 0 message, [Processing (s_sourceName source)], d'))"

fun scrapeLoop ::
  "network \<Rightarrow> faults \<Rightarrow> nat \<Rightarrow> source_spec list \<Rightarrow> ScrapingResult list \<times> effect list \<times> db \<Rightarrow>
     ScrapingResult list \<times> effect list \<times> db" where
  "scrapeLoop net fault now [] acc = acc"
| "scrapeLoop net fault now (source # rest) (results, trace, d) =
     (case scrapeOne net fault now source (rest = []) d of
        (result, effects, d') \<Rightarrow>
          scrapeLoop net fault now rest (results @ [result], trace @ effects, d'))"

definition summaryOf :: "nat \<Rightarrow> ScrapingResult list \<Rightarrow> summary" where
  "summaryOf n results =
     (let successfulSources = length (filter (\<lambda>r. status r = completed) results)
      in \<lparr> sources_processed = n,
           successful = successfulSources,
           failed_sources = n - successfulSources,
           total_added = foldl (\<lambda>sum r. sum + books_added r) 0 results,
           total_updated = foldl (\<lambda>sum r. sum + books_updated r) 0 results,
           total_errors = foldl (\<lambda>sum r. sum + errors r) 0 results \<rparr>)"

text \<open>
  \<^verbatim>\<open>scrapeMultipleSources\<close> returns the list of results; the second component is what
  it did besides, in order.
\<close>

definition scrapeMultipleSources ::
  "network \<Rightarrow> faults \<Rightarrow> nat \<Rightarrow> source_spec list \<Rightarrow> db \<Rightarrow> (ScrapingResult list \<times> effect list) \<times> db" where
  "scrapeMultipleSources net fault now sources d =
     (case scrapeLoop net fault now sources ([], [], d) of
        (results, trace, d') \<Rightarrow>
          ((results, trace @ [Summary (summaryOf (length sources) results)]), d'))"

section \<open>Sample inputs\<close>

text \<open>Concrete payloads, candidates and stores at which the theorems are instantiated.\<close>

definition sampleWork :: "string option \<Rightarrow> ol_work" where
  "sampleWork t =
     \<lparr> w_title = t, w_first_publish_year = Some 1965, w_description = DescString ''A novel'',
       w_cover_id = Some 42, w_key = Some ''/works/OL1W'',
       w_authors = Some [Some ''Frank Herbert''], w_pdf_url = None, w_download_url = None \<rparr>"

definition sampleVolume :: "string option \<Rightarrow> gb_volumeInfo" where
  "sampleVolume t =
     \<lparr> v_title = t, v_subtitle = None,
       v_industryIdentifiers =
         Some [\<lparr>id_type = ''ISBN_13'', id_identifier = Some ''9780441013593''\<rparr>],
       v_publishedDate = Some ''1965-08-01'', v_publisher = Some ''Ace'',
       v_pageCount = Some 412, v_language = None, v_description = None, v_imageLinks = None,
       v_canonicalVolumeLink = None, v_previewLink = None, v_infoLink = None,
       v_authors = Some [''Frank Herbert''], v_categories = None \<rparr>"

definition sampleEntry :: "string \<Rightarrow> gutenberg_entry" where
  "sampleEntry t = \<lparr> g_titleText = t, g_href = Some ''/ebooks/1'', g_subtitleText = ''by Someone'' \<rparr>"

definition sampleSelectors :: CustomSelectors where
  "sampleSelectors =
     \<lparr> sel_container = ''.book'', sel_title = ''h2'', sel_subtitle = None, sel_authors = None,
       sel_description = None, sel_coverImage = None, sel_link = None, sel_publisher = None,
       sel_year = None, sel_isbn = None, sel_categories = None, sel_pages = None \<rparr>"

definition sampleItem :: "string \<Rightarrow> custom_item" where
  "sampleItem t =
     \<lparr> itemText = (\<lambda>q. if q = ''h2'' then t else []), itemAttr = (\<lambda>q a. None),
       itemTexts = (\<lambda>q. []) \<rparr>"

definition candidate :: "string \<Rightarrow> string option \<Rightarrow> string list \<Rightarrow> string list \<Rightarrow> ScrapedBook" where
  "candidate t i as cs =
     \<lparr> title = t, subtitle = None, isbn = i, publication_year = None, publisher = None,
       pages = None, language = None, description = None, cover_image_url = None,
       source_url = None, authors = as, categories = cs, pdf_url = None, download_url = None \<rparr>"

definition emptyTables :: tables where
  "emptyTables =
     \<lparr> tbl_books = [], tbl_authors = [], tbl_book_authors = [], tbl_categories = [],
       tbl_book_categories = [], tbl_sources = [], tbl_scraping_logs = [] \<rparr>"

definition emptyDb :: db where
  "emptyDb = \<lparr> tables = emptyTables, snapshot = None, aborted = False \<rparr>"

text \<open>A store that rejects every insert of a book whose title is \<open>t\<close>.\<close>

definition rejectTitle :: "string \<Rightarrow> faults" where
  "rejectTitle t q d =
     (case q of
        InsertBook book sourceId \<Rightarrow> if title book = t then Some ''constraint violation'' else None
      | _ \<Rightarrow> None)"

text \<open>A store that rejects every insert of an author.\<close>

definition rejectAuthors :: faults where
  "rejectAuthors q d = (case q of InsertAuthor name \<Rightarrow> Some ''constraint violation'' | _ \<Rightarrow> None)"


text \<open>
  The coalesce merge in the specification's words: in the row of the matched book each of
  the six fields takes the candidate's value when the candidate has one and keeps the
  stored value otherwise, \<open>last_updated\<close> is set to the current time, and every other
  column is as before; every other row is as before.
\<close>

definition mergedFrom :: "nat \<Rightarrow> ScrapedBook \<Rightarrow> nat \<Rightarrow> book_row \<Rightarrow> book_row \<Rightarrow> bool" where
  "mergedFrom now book bookId r r' =
     (if book_id r = bookId
      then b_subtitle r' = (case subtitle book of None \<Rightarrow> b_subtitle r | Some v \<Rightarrow> Some v) \<and>
           b_publisher r' = (case publisher book of None \<Rightarrow> b_publisher r | Some v \<Rightarrow> Some v) \<and>
           b_pages r' = (case pages book of None \<Rightarrow> b_pages r | Some v \<Rightarrow> Some v) \<and>
           b_description r' =
             (case description book of None \<Rightarrow> b_description r | Some v \<Rightarrow> Some v) \<and>
           b_cover_image_url r' =
             (case cover_image_url book of None \<Rightarrow> b_cover_image_url r | Some v \<Rightarrow> Some v) \<and>
           b_isbn r' = (case isbn book of None \<Rightarrow> b_isbn r | Some v \<Rightarrow> Some v) \<and>
           b_last_updated r' = Some now \<and>
           book_id r' = book_id r \<and> b_title r' = b_title r \<and>
           b_publication_year r' = b_publication_year r \<and> b_language r' = b_language r \<and>
           b_source_id r' = b_source_id r \<and> b_source_url r' = b_source_url r \<and>
           b_pdf_url r' = b_pdf_url r \<and> b_download_url r' = b_download_url r
      else r' = r)"

text \<open>No stored value of the six fields is replaced by null.\<close>

definition keepsValues :: "book_row \<Rightarrow> book_row \<Rightarrow> bool" where
  "keepsValues r r' =
     ((b_subtitle r = None \<or> b_subtitle r' \<noteq> None) \<and>
      (b_publisher r = None \<or> b_publisher r' \<noteq> None) \<and>
      (b_pages r = None \<or> b_pages r' \<noteq> None) \<and>
      (b_description r = None \<or> b_description r' \<noteq> None) \<and>
      (b_cover_image_url r = None \<or> b_cover_image_url r' \<noteq> None) \<and>
      (b_isbn r = None \<or> b_isbn r' \<noteq> None))"

definition storeAcme :: db where
  "storeAcme =
     \<lparr> tables = emptyTables\<lparr>tbl_books :=
         [(insertedRow 7 (candidate ''Dune'' None [] []) 1)\<lparr>b_publisher := Some ''Acme''\<rparr>]\<rparr>,
       snapshot = None, aborted = False \<rparr>"

text \<open>A network on which every request times out; one that answers with a single work.\<close>

definition offline :: network where
  "offline =
     \<lparr> fetchOpenLibrary = (\<lambda>s n. Inl ''timeout''), fetchGoogleBooks = (\<lambda>s n. Inl ''timeout''),
       fetchGutenberg = (\<lambda>s. Inl ''timeout''), fetchCustom = (\<lambda>u. Inl ''timeout''),
       net_resolveUrl = (\<lambda>s u. None) \<rparr>"

definition oneWork :: network where
  "oneWork = offline\<lparr>fetchOpenLibrary := (\<lambda>s n. Inr [sampleWork (Some ''Dune'')])\<rparr>"

text \<open>A store that rejects every update of a scraping log.\<close>

definition rejectLogUpdates :: faults where
  "rejectLogUpdates q d = (case q of UpdateLog l u \<Rightarrow> Some ''connection lost'' | _ \<Rightarrow> None)"



definition sampleSource :: "string \<Rightarrow> source_spec" where
  "sampleSource name =
     \<lparr> s_type = openlibrary, s_query = ''scifi'', s_sourceName = name,
       s_baseUrl = ''https://openlibrary.org'', s_customSelectors = None \<rparr>"


definition isDelay :: "effect \<Rightarrow> bool" where
  "isDelay e = (case e of Delay ms \<Rightarrow> True | _ \<Rightarrow> False)"

text \<open>A store in which books 7 and 8 both have the author 5.\<close>

definition storeLinked :: db where
  "storeLinked =
     \<lparr> tables = emptyTables
         \<lparr> tbl_authors := [\<lparr>author_id = 5, author_name = ''Old Author''\<rparr>],
           tbl_book_authors :=
             [\<lparr>ba_book_id = 7, ba_author_id = 5, author_position = 1\<rparr>,
              \<lparr>ba_book_id = 8, ba_author_id = 5, author_position = 1\<rparr>] \<rparr>,
       snapshot = None, aborted = False \<rparr>"

section \<open>The linking steps on the tables\<close>

text \<open>
  What the linking of categories does to the tables when no statement raises: the
  category of a name is looked up or created, then the pair is inserted if absent.
\<close>

definition ensureCategory :: "string \<Rightarrow> tables \<Rightarrow> nat \<times> tables" where
  "ensureCategory name t =
     (case fst (sqlSelectCategory name t) of c # _ \<Rightarrow> (c, t) | [] \<Rightarrow> sqlInsertCategory name t)"

definition linkCategory :: "nat \<Rightarrow> string \<Rightarrow> tables \<Rightarrow> tables" where
  "linkCategory bookId categoryName t =
     (if categoryName \<noteq> [] \<and> trim categoryName \<noteq> []
      then (case ensureCategory (trim categoryName) t of
              (c, t1) \<Rightarrow> snd (sqlInsertBookCategory bookId c t1))
      else t)"

text \<open>The category a name stands for in the tables, and whether a book has a category.\<close>

definition categoryIdOf :: "string \<Rightarrow> tables \<Rightarrow> nat option" where
  "categoryIdOf name t =
     firstRow (map category_id (filter (\<lambda>r. category_name r = name) (tbl_categories t)))"

definition linked :: "nat \<Rightarrow> nat \<Rightarrow> tables \<Rightarrow> bool" where
  "linked bookId categoryId t =
     list_ex (\<lambda>r. bc_book_id r = bookId \<and> bc_category_id r = categoryId) (tbl_book_categories t)"


text \<open>
  What the linking of authors does to the tables when no statement raises. A name counts
  when it is not blank; its author is the first row of that name.
\<close>

definition nonblank :: "string \<Rightarrow> bool" where
  "nonblank name = (name \<noteq> [] \<and> trim name \<noteq> [])"

definition lookupAuthor :: "string \<Rightarrow> author_row list \<Rightarrow> nat option" where
  "lookupAuthor name rows = firstRow (map author_id (filter (\<lambda>r. author_name r = name) rows))"

definition ensureAuthorRow :: "string \<Rightarrow> author_row list \<Rightarrow> author_row list" where
  "ensureAuthorRow name rows =
     (case lookupAuthor name rows of
        Some a \<Rightarrow> rows
      | None \<Rightarrow> rows @ [\<lparr>author_id = freshId (map author_id rows), author_name = name\<rparr>])"

definition authorsAfter :: "string list \<Rightarrow> author_row list \<Rightarrow> author_row list" where
  "authorsAfter names rows =
     foldl (\<lambda>rows n. if nonblank n then ensureAuthorRow (trim n) rows else rows) rows names"

text \<open>
  The specification's wording of what is written for a book: one (author, position) pair
  for each name that is not blank, in the given order, the position being the 1-based
  place of the name in the list.
\<close>

definition writeOf :: "nat \<Rightarrow> string \<Rightarrow> author_row list \<Rightarrow> (nat \<times> nat) list" where
  "writeOf i n rows =
     (if nonblank n
      then (case lookupAuthor (trim n) rows of Some a \<Rightarrow> [(a, i + 1)] | None \<Rightarrow> [])
      else [])"

fun writes :: "nat \<Rightarrow> string list \<Rightarrow> author_row list \<Rightarrow> (nat \<times> nat) list" where
  "writes i [] rows = []"
| "writes i (n # rest) rows = writeOf i n rows @ writes (i + 1) rest rows"

text \<open>
  The upsert on the rows of one book: the row of an author not yet there is appended, that
  of an author already there has its position overwritten. \<open>linksOf\<close> is what the
  writes leave on a book without rows, and \<open>linkRow\<close> the row of one write.
\<close>

definition upsertLink :: "nat \<Rightarrow> book_author_row list \<Rightarrow> nat \<times> nat \<Rightarrow> book_author_row list" where
  "upsertLink bookId rows w =
     (if list_ex (\<lambda>r. ba_author_id r = fst w) rows
      then map (\<lambda>r. if ba_author_id r = fst w then r\<lparr>author_position := snd w\<rparr> else r) rows
      else rows @ [\<lparr>ba_book_id = bookId, ba_author_id = fst w, author_position = snd w\<rparr>])"

definition linksOf :: "nat \<Rightarrow> string list \<Rightarrow> author_row list \<Rightarrow> book_author_row list" where
  "linksOf bookId names rows = foldl (upsertLink bookId) [] (writes 0 names rows)"

definition linkRow :: "nat \<Rightarrow> nat \<times> nat \<Rightarrow> book_author_row" where
  "linkRow bookId w = \<lparr>ba_book_id = bookId, ba_author_id = fst w, author_position = snd w\<rparr>"

text \<open>The statements of the loop over the authors, as functions on the tables.\<close>

definition ensureAuthor :: "string \<Rightarrow> tables \<Rightarrow> nat \<times> tables" where
  "ensureAuthor name t =
     (case fst (sqlSelectAuthor name t) of a # _ \<Rightarrow> (a, t) | [] \<Rightarrow> sqlInsertAuthor name t)"

definition linkAuthor :: "nat \<Rightarrow> nat \<Rightarrow> string \<Rightarrow> tables \<Rightarrow> tables" where
  "linkAuthor bookId i authorName t =
     (if authorName \<noteq> [] \<and> trim authorName \<noteq> []
      then (case ensureAuthor (trim authorName) t of
              (a, t1) \<Rightarrow> snd (sqlUpsertBookAuthor bookId a (i + 1) t1))
      else t)"

fun linkAuthorsPure :: "nat \<Rightarrow> nat \<Rightarrow> string list \<Rightarrow> tables \<Rightarrow> tables" where
  "linkAuthorsPure bookId i [] t = t"
| "linkAuthorsPure bookId i (n # rest) t =
     linkAuthorsPure bookId (i + 1) rest (linkAuthor bookId i n t)"

section \<open>Notions used in the proofs\<close>

text \<open>An action keeps the part \<open>g\<close> of the store; an action never raises.\<close>

definition keeps :: "(db \<Rightarrow> 'b) \<Rightarrow> 'a io \<Rightarrow> bool" where
  "keeps g m = (\<forall>d. g (snd (m d)) = g d)"



text \<open>
  An action leaves the saved tables alone, and when it raises inside a transaction the
  transaction is aborted afterwards.
\<close>

definition transactional :: "'a io \<Rightarrow> bool" where
  "transactional m =
     (\<forall>d. snapshot (snd (m d)) = snapshot d \<and>
          (snapshot d \<noteq> None \<and> (\<exists>e. fst (m d) = Inl e) \<longrightarrow> aborted (snd (m d))))"

(*THEOREMS*)
section \<open>Extraction of years\<close>

lemma fourDigitsAt_short: "length s < 4 \<Longrightarrow> \<not> fourDigitsAt s i"
  by (simp add: fourDigitsAt_def)

lemma fourDigitsAt_Cons_Suc: "fourDigitsAt (a # s) (Suc i) = fourDigitsAt s i"
  by (auto simp: fourDigitsAt_def)

lemma fourDigitsAt_0:
  "fourDigitsAt (a # b # c # d # rest) 0 = (isDigit a \<and> isDigit b \<and> isDigit c \<and> isDigit d)"
  by (simp add: fourDigitsAt_def)

lemma firstFourDigits_None: "(firstFourDigits s = None) = (\<forall>i. \<not> fourDigitsAt s i)"
proof (induction s rule: firstFourDigits.induct)
  case (1 a b c d rest)
  show ?case
  proof (cases "isDigit a \<and> isDigit b \<and> isDigit c \<and> isDigit d")
    case True
    then have "fourDigitsAt (a # b # c # d # rest) 0"
      by (simp add: fourDigitsAt_0)
    with True show ?thesis by auto
  next
    case False
    have "(\<forall>i. \<not> fourDigitsAt (a # b # c # d # rest) i) = (\<forall>i. \<not> fourDigitsAt (b # c # d # rest) i)"
    proof
      assume h: "\<forall>i. \<not> fourDigitsAt (a # b # c # d # rest) i"
      show "\<forall>i. \<not> fourDigitsAt (b # c # d # rest) i"
      proof
        fix i
        from h have "\<not> fourDigitsAt (a # b # c # d # rest) (Suc i)" by blast
        then show "\<not> fourDigitsAt (b # c # d # rest) i"
          by (simp add: fourDigitsAt_Cons_Suc)
      qed
    next
      assume h: "\<forall>i. \<not> fourDigitsAt (b # c # d # rest) i"
      show "\<forall>i. \<not> fourDigitsAt (a # b # c # d # rest) i"
      proof
        fix i
        show "\<not> fourDigitsAt (a # b # c # d # rest) i"
        proof (cases i)
          case 0
          with False show ?thesis by (simp add: fourDigitsAt_0)
        next
          case (Suc j)
          with h show ?thesis by (simp add: fourDigitsAt_Cons_Suc)
        qed
      qed
    qed
    with False 1 show ?thesis by auto
  qed
qed (simp_all add: fourDigitsAt_short)

lemma firstFourDigits_Some:
  "firstFourDigits s = Some ds \<Longrightarrow>
     \<exists>i. fourDigitsAt s i \<and> (\<forall>j<i. \<not> fourDigitsAt s j) \<and> ds = take 4 (drop i s)"
proof (induction s rule: firstFourDigits.induct)
  case (1 a b c d rest)
  show ?case
  proof (cases "isDigit a \<and> isDigit b \<and> isDigit c \<and> isDigit d")
    case True
    with 1(2) have "ds = take 4 (drop 0 (a # b # c # d # rest))" by auto
    moreover from True have "fourDigitsAt (a # b # c # d # rest) 0"
      by (simp add: fourDigitsAt_0)
    ultimately show ?thesis by blast
  next
    case False
    with 1 obtain i where i: "fourDigitsAt (b # c # d # rest) i"
      "\<forall>j<i. \<not> fourDigitsAt (b # c # d # rest) j" "ds = take 4 (drop i (b # c # d # rest))"
      by auto
    have "fourDigitsAt (a # b # c # d # rest) (Suc i)"
      using i(1) by (simp only: fourDigitsAt_Cons_Suc)
    moreover have "\<forall>j<Suc i. \<not> fourDigitsAt (a # b # c # d # rest) j"
    proof (intro allI impI)
      fix j assume "j < Suc i"
      show "\<not> fourDigitsAt (a # b # c # d # rest) j"
      proof (cases j)
        case 0
        with False show ?thesis by (simp add: fourDigitsAt_0)
      next
        case (Suc k)
        with \<open>j < Suc i\<close> i(2) show ?thesis by (simp add: fourDigitsAt_Cons_Suc)
      qed
    qed
    moreover have "ds = take 4 (drop (Suc i) (a # b # c # d # rest))"
      using i(3) by simp
    ultimately show ?thesis by blast
  qed
qed simp_all

lemma parseInt_four:
  "parseInt [a, b, c, d] =
     1000 * digitValue a + 100 * digitValue b + 10 * digitValue c + digitValue d"
  by (simp add: parseInt_def)

text \<open>
  Claim C9, as stated: \<open>extractYear\<close> returns the first run of exactly four digits.
  The code's pattern has no boundary on either side, so it matches inside a longer run
  of digits: on a five-digit number it returns the first four digits, where the rule of
  the claim finds no run of exactly four digits.
\<close>

theorem extractYear_exactly_four_counterexample:
  "extractYear (Some ''12345'') = Some 1234 \<and> extractYear_spec (Some ''12345'') = None"
  by (simp add: extractYear_def extractYear_spec_def parseInt_def digitValue_def isDigit_def)

text \<open>
  Claim C9, amended: \<open>extractYear\<close> returns the decimal value of the first four
  consecutive digits of the string, that is the four digits at the least index at which
  four digits follow one another, also when the run of digits goes on beyond them; it
  returns undefined when the input is missing, is empty, or has no four consecutive
  digits anywhere.
\<close>

theorem extractYear_first_four_consecutive:
  "extractYear None = None \<and>
   (extractYear (Some s) = None) = (\<forall>i. \<not> fourDigitsAt s i) \<and>
   (\<forall>y. extractYear (Some s) = Some y \<longrightarrow>
      (\<exists>i. fourDigitsAt s i \<and> (\<forall>j<i. \<not> fourDigitsAt s j) \<and>
           y = parseInt (take 4 (drop i s)) \<and>
           y = 1000 * digitValue (s ! i) + 100 * digitValue (s ! (i + 1)) +
               10 * digitValue (s ! (i + 2)) + digitValue (s ! (i + 3))))"
proof (intro conjI allI impI)
  show "extractYear None = None"
    by (simp add: extractYear_def)
next
  show "(extractYear (Some s) = None) = (\<forall>i. \<not> fourDigitsAt s i)"
    using firstFourDigits_None [of s]
    by (cases "s = []") (auto simp: extractYear_def fourDigitsAt_def)
next
  fix y
  assume "extractYear (Some s) = Some y"
  then obtain ds where ds: "firstFourDigits s = Some ds" and y: "y = parseInt ds"
    by (auto simp: extractYear_def split: if_splits)
  from firstFourDigits_Some [OF ds] obtain i where
    i: "fourDigitsAt s i" "\<forall>j<i. \<not> fourDigitsAt s j" "ds = take 4 (drop i s)"
    by blast
  from i(1) have len: "i + 4 \<le> length s"
    by (simp add: fourDigitsAt_def)
  then have "take 4 (drop i s) = [s ! i, s ! (i + 1), s ! (i + 2), s ! (i + 3)]"
    by (intro nth_equalityI) (auto simp: nth_Cons' less_Suc_eq numeral_eq_Suc)
  with i(3) y have "y = 1000 * digitValue (s ! i) + 100 * digitValue (s ! (i + 1)) +
      10 * digitValue (s ! (i + 2)) + digitValue (s ! (i + 3))"
    by (simp add: parseInt_four)
  with i y show "\<exists>i. fourDigitsAt s i \<and> (\<forall>j<i. \<not> fourDigitsAt s j) \<and>
      y = parseInt (take 4 (drop i s)) \<and>
      y = 1000 * digitValue (s ! i) + 100 * digitValue (s ! (i + 1)) +
          10 * digitValue (s ! (i + 2)) + digitValue (s ! (i + 3))"
    by blast
qed

theorem extractYear_first_four_consecutive_witness:
  "extractYear (Some ''May 12345'') = Some 1234 \<and>
   fourDigitsAt ''May 12345'' 4 \<and> \<not> fourDigitsAt ''May 12345'' 3 \<and>
   parseInt (take 4 (drop 4 ''May 12345'')) = 1234 \<and>
   extractYear (Some ''no year'') = None"
  using extractYear_first_four_consecutive [of "''May 12345''"]
    extractYear_first_four_consecutive [of "''no year''"]
  by (simp add: extractYear_def parseInt_def digitValue_def isDigit_def fourDigitsAt_def)

section \<open>The adapters and the placeholder title\<close>

lemma keepBook_Some:
  "(keepBook b = Some b') = (b' = b \<and> title b \<noteq> [] \<and> title b \<noteq> unknownTitle)"
  by (auto simp: keepBook_def)

lemma keepBook_sentinel: "title b = unknownTitle \<Longrightarrow> keepBook b = None"
  by (simp add: keepBook_def)

lemma orDefault_sentinel:
  "x \<in> {None, Some [], Some unknownTitle} \<Longrightarrow> orDefault x unknownTitle = unknownTitle"
  by (auto simp: orDefault_def)

lemma orDefault_kept:
  "orDefault x unknownTitle \<noteq> unknownTitle \<Longrightarrow> x = Some (orDefault x unknownTitle)"
  by (auto simp: orDefault_def split: option.splits if_splits)

lemma openLibraryBook_title:
  "openLibraryBook subject work = Some b \<Longrightarrow>
     cleanText (w_title work) = Some (title b) \<and> title b \<noteq> [] \<and> title b \<noteq> unknownTitle"
  by (auto simp: openLibraryBook_def Let_def keepBook_Some dest: orDefault_kept)

lemma googleBooksBook_title:
  "googleBooksBook item = Some b \<Longrightarrow>
     (\<exists>v. item = Some v \<and> cleanText (v_title v) = Some (title b)) \<and>
     title b \<noteq> [] \<and> title b \<noteq> unknownTitle"
  by (auto simp: googleBooksBook_def Let_def keepBook_Some split: option.splits dest: orDefault_kept)

lemma gutenbergBook_title:
  "gutenbergBook searchTerm entry = Some b \<Longrightarrow>
     cleanText (Some (g_titleText entry)) = Some (title b) \<and> title b \<noteq> [] \<and> title b \<noteq> unknownTitle"
  by (auto simp: gutenbergBook_def Let_def keepBook_Some dest: orDefault_kept)

lemma customBook_title:
  "customBook resolveUrl url selectors item = Some b \<Longrightarrow>
     cleanText (Some (itemText item (sel_title selectors))) = Some (title b) \<and>
     title b \<noteq> [] \<and> title b \<noteq> unknownTitle"
  by (auto simp: customBook_def Let_def keepBook_Some split: option.splits dest: orDefault_kept)

lemma set_map_filter': "set (List.map_filter f xs) = {y. \<exists>x\<in>set xs. f x = Some y}"
  by (induction xs) (auto split: option.splits)

text \<open>
  Claim C10: each of the four adapters gives an item whose cleaned title is missing or
  empty the placeholder \<open>Unknown Title\<close> and pushes a book only when its title is
  non-empty and is not the placeholder. So an item whose cleaned title is missing, empty
  or the placeholder itself yields no candidate, and no candidate an adapter yields has
  an empty title or the title \<open>Unknown Title\<close>.
\<close>

theorem adapters_discard_unknown_title:
  "(cleanText (w_title work) \<in> {None, Some [], Some unknownTitle} \<longrightarrow>
      openLibraryBook subject work = None) \<and>
   (cleanText (v_title volumeInfo) \<in> {None, Some [], Some unknownTitle} \<longrightarrow>
      googleBooksBook (Some volumeInfo) = None) \<and>
   (cleanText (Some (g_titleText entry)) \<in> {None, Some [], Some unknownTitle} \<longrightarrow>
      gutenbergBook searchTerm entry = None) \<and>
   (cleanText (Some (itemText item (sel_title selectors))) \<in> {None, Some [], Some unknownTitle} \<longrightarrow>
      customBook resolveUrl url selectors item = None) \<and>
   (\<forall>b \<in> set (openLibraryBooks subject works). title b \<noteq> [] \<and> title b \<noteq> unknownTitle) \<and>
   (\<forall>b \<in> set (googleBooksBooks items). title b \<noteq> [] \<and> title b \<noteq> unknownTitle) \<and>
   (\<forall>b \<in> set (gutenbergBooks searchTerm entries). title b \<noteq> [] \<and> title b \<noteq> unknownTitle) \<and>
   (\<forall>b \<in> set (customBooks resolveUrl url selectors citems).
      title b \<noteq> [] \<and> title b \<noteq> unknownTitle)"
proof (intro conjI impI ballI)
  assume "cleanText (w_title work) \<in> {None, Some [], Some unknownTitle}"
  then show "openLibraryBook subject work = None"
    by (simp add: openLibraryBook_def Let_def orDefault_sentinel keepBook_sentinel)
next
  assume "cleanText (v_title volumeInfo) \<in> {None, Some [], Some unknownTitle}"
  then show "googleBooksBook (Some volumeInfo) = None"
    by (simp add: googleBooksBook_def Let_def orDefault_sentinel keepBook_sentinel)
next
  assume "cleanText (Some (g_titleText entry)) \<in> {None, Some [], Some unknownTitle}"
  then show "gutenbergBook searchTerm entry = None"
    by (simp add: gutenbergBook_def Let_def orDefault_sentinel keepBook_sentinel)
next
  assume "cleanText (Some (itemText item (sel_title selectors))) \<in> {None, Some [], Some unknownTitle}"
  then show "customBook resolveUrl url selectors item = None"
    by (simp add: customBook_def Let_def orDefault_sentinel keepBook_sentinel split: option.splits)
next
  fix b assume "b \<in> set (openLibraryBooks subject works)"
  then show "title b \<noteq> []" "title b \<noteq> unknownTitle"
    by (auto simp: openLibraryBooks_def set_map_filter' dest: openLibraryBook_title)
next
  fix b assume "b \<in> set (googleBooksBooks items)"
  then show "title b \<noteq> []" "title b \<noteq> unknownTitle"
    by (auto simp: googleBooksBooks_def set_map_filter' dest: googleBooksBook_title)
next
  fix b assume "b \<in> set (gutenbergBooks searchTerm entries)"
  then have "b \<in> set (List.map_filter (gutenbergBook searchTerm) entries)"
    by (auto simp: gutenbergBooks_def dest: in_set_takeD)
  then show "title b \<noteq> []" "title b \<noteq> unknownTitle"
    by (auto simp: set_map_filter' dest: gutenbergBook_title)
next
  fix b assume "b \<in> set (customBooks resolveUrl url selectors citems)"
  then show "title b \<noteq> []" "title b \<noteq> unknownTitle"
    by (auto simp: customBooks_def set_map_filter' dest: customBook_title)
qed

theorem adapters_discard_unknown_title_witness:
  "cleanText (Some '' Unknown   Title '') = Some unknownTitle \<and>
   openLibraryBook ''scifi'' (sampleWork (Some '' Unknown   Title '')) = None \<and>
   googleBooksBook (Some (sampleVolume (Some '' Unknown   Title ''))) = None \<and>
   gutenbergBook ''scifi'' (sampleEntry '' Unknown   Title '') = None \<and>
   customBook (\<lambda>s u. None) ''http://x'' sampleSelectors (sampleItem '' Unknown   Title '') = None \<and>
   map title (openLibraryBooks ''scifi''
      [sampleWork (Some '' Unknown   Title ''), sampleWork None, sampleWork (Some ''Dune'')]) = [''Dune''] \<and>
   map title (googleBooksBooks
      [Some (sampleVolume (Some '' Unknown   Title '')), None, Some (sampleVolume (Some ''Dune''))]) = [''Dune''] \<and>
   map title (gutenbergBooks ''scifi''
      [sampleEntry '' Unknown   Title '', sampleEntry '''', sampleEntry ''Dune'']) = [''Dune''] \<and>
   map title (customBooks (\<lambda>s u. None) ''http://x'' sampleSelectors
      [sampleItem '' Unknown   Title '', sampleItem ''  '', sampleItem ''Dune'']) = [''Dune'']"
  using adapters_discard_unknown_title
    [where work = "sampleWork (Some '' Unknown   Title '')" and subject = "''scifi''"
       and volumeInfo = "sampleVolume (Some '' Unknown   Title '')"
       and entry = "sampleEntry '' Unknown   Title ''" and searchTerm = "''scifi''"
       and item = "sampleItem '' Unknown   Title ''" and selectors = sampleSelectors
       and resolveUrl = "\<lambda>s u. None" and url = "''http://x''"
       and works = "[sampleWork (Some '' Unknown   Title ''), sampleWork None, sampleWork (Some ''Dune'')]"
       and items = "[Some (sampleVolume (Some '' Unknown   Title '')), None, Some (sampleVolume (Some ''Dune''))]"
       and entries = "[sampleEntry '' Unknown   Title '', sampleEntry '''', sampleEntry ''Dune'']"
       and citems = "[sampleItem '' Unknown   Title '', sampleItem ''  '', sampleItem ''Dune'']"]
  by code_simp

section \<open>The store without faults\<close>

lemma query_noFaults:
  "clientQuery noFaults q run d = (Inr (fst (run (tables d))), d\<lparr>tables := snd (run (tables d))\<rparr>)"
  by (simp add: clientQuery_def noFaults_def split: prod.splits)

lemma control_noFaults: "control noFaults q run d = (Inr (), run d)"
  by (simp add: control_def noFaults_def)

lemma andThen_Inr: "m d = (Inr x, d') \<Longrightarrow> andThen m f d = f x d'"
  by (simp add: andThen_def)

lemma andThen_Inl: "m d = (Inl e, d') \<Longrightarrow> andThen m f d = (Inl e, d')"
  by (simp add: andThen_def)

lemma andThen_return: "andThen (return x) f d = f x d"
  by (simp add: andThen_def return_def)

lemma db_tables_same: "d\<lparr>tables := tables d\<rparr> = d"
  by simp

lemma select_noFaults:
  "andThen (clientQuery noFaults q (\<lambda>t. (sel t, t))) (\<lambda>rows. return (firstRow rows)) d =
     (Inr (firstRow (sel (tables d))), d)"
  by (simp add: andThen_def query_noFaults return_def)


lemma selectIsbn_noFaults:
  "andThen (clientQuery noFaults (SelectBookByIsbn i) (sqlSelectBookByIsbn i))
      (\<lambda>rows. return (firstRow rows)) d =
   (Inr (firstRow (map book_id (filter (\<lambda>r. b_isbn r = Some i) (tbl_books (tables d))))), d)"
  by (simp add: andThen_def query_noFaults return_def sqlSelectBookByIsbn_def)

lemma selectTitleYear_noFaults:
  "andThen (clientQuery noFaults (SelectBookByTitleYear ti y) (sqlSelectBookByTitleYear ti y))
      (\<lambda>rows. return (firstRow rows)) d =
   (Inr (firstRow (map book_id
      (filter (\<lambda>r. b_title r = ti \<and> b_publication_year r = Some y) (tbl_books (tables d))))), d)"
  by (simp add: andThen_def query_noFaults return_def sqlSelectBookByTitleYear_def)

lemma selectTitle_noFaults:
  "andThen (clientQuery noFaults (SelectBookByTitle ti) (sqlSelectBookByTitle ti))
      (\<lambda>rows. return (firstRow rows)) d =
   (Inr (firstRow (map book_id (filter (\<lambda>r. b_title r = ti) (tbl_books (tables d))))), d)"
  by (simp add: andThen_def query_noFaults return_def sqlSelectBookByTitle_def)


lemma lookupByIsbn_noFaults:
  "lookupByIsbn noFaults book d = (Inr (matchByIsbn book (tbl_books (tables d))), d)"
  by (simp add: lookupByIsbn_def selectIsbn_noFaults matchByIsbn_def truthyStr_def return_def
      split: option.splits)

lemma lookupByTitleYear_noFaults:
  "lookupByTitleYear noFaults book e d =
     (Inr (case e of Some b \<Rightarrow> Some b | None \<Rightarrow> matchByTitleYear book (tbl_books (tables d))), d)"
  by (simp add: lookupByTitleYear_def selectTitleYear_noFaults matchByTitleYear_def truthyNum_def
      return_def split: option.splits)

lemma lookupByTitle_noFaults:
  "lookupByTitle noFaults book e d =
     (Inr (case e of Some b \<Rightarrow> Some b | None \<Rightarrow> matchByTitle book (tbl_books (tables d))), d)"
  by (simp add: lookupByTitle_def selectTitle_noFaults matchByTitle_def return_def
      split: option.splits)

lemma findExisting_noFaults:
  "findExisting noFaults book d = (Inr (findBookId_spec book (tbl_books (tables d))), d)"
  by (simp add: findExisting_def andThen_def lookupByIsbn_noFaults lookupByTitleYear_noFaults
      lookupByTitle_noFaults findBookId_spec_def split: option.splits)

lemma keepsD: "keeps g m \<Longrightarrow> g (snd (m d)) = g d"
  by (simp add: keeps_def)

lemma keeps_return: "keeps g (return x)"
  by (simp add: keeps_def return_def)

lemma keeps_andThen:
  assumes "keeps g m" and "\<And>x. keeps g (f x)"
  shows "keeps g (andThen m f)"
proof -
  have "g (snd (andThen m f d)) = g d" for d
  proof (cases "m d")
    case (Pair r d')
    from assms(1) have "g (snd (m d)) = g d" by (simp add: keeps_def)
    with Pair have gd: "g d' = g d" by simp
    show ?thesis
    proof (cases r)
      case (Inl e)
      with Pair gd show ?thesis by (simp add: andThen_def)
    next
      case (Inr x)
      from assms(2) [of x] have "g (snd (f x d')) = g d'" by (simp add: keeps_def)
      with Pair Inr gd show ?thesis by (simp add: andThen_def)
    qed
  qed
  then show ?thesis by (simp add: keeps_def)
qed

lemma keeps_query:
  assumes "\<And>t. h (snd (run t)) = h t"
  shows "keeps (\<lambda>d. h (tables d)) (clientQuery fault q run)"
proof -
  have "h (tables (snd (clientQuery fault q run d))) = h (tables d)" for d
  proof -
    obtain x t where r: "run (tables d) = (x, t)" by (cases "run (tables d)")
    with assms [of "tables d"] have "h t = h (tables d)" by simp
    with r show ?thesis by (simp add: clientQuery_def split: option.splits)
  qed
  then show ?thesis by (simp add: keeps_def)
qed

lemma keeps_query_snapshot: "keeps snapshot (clientQuery fault q run)"
  unfolding keeps_def clientQuery_def
  by (auto split: option.splits prod.splits)

lemma keeps_if: "keeps g a \<Longrightarrow> keeps g b \<Longrightarrow> keeps g (if c then a else b)"
  by simp












text \<open>Linking authors and categories never touches the books table.\<close>

lemma keeps_books_getOrCreateAuthor:
  "keeps (\<lambda>d. tbl_books (tables d)) (getOrCreateAuthor fault n)"
  unfolding getOrCreateAuthor_def
  by (intro keeps_andThen keeps_query)
     (auto split: list.splits intro!: keeps_return keeps_query
       simp: sqlSelectAuthor_def sqlInsertAuthor_def Let_def)

lemma keeps_books_getOrCreateCategory:
  "keeps (\<lambda>d. tbl_books (tables d)) (getOrCreateCategory fault n)"
  unfolding getOrCreateCategory_def
  by (intro keeps_andThen keeps_query)
     (auto split: list.splits intro!: keeps_return keeps_query
       simp: sqlSelectCategory_def sqlInsertCategory_def Let_def)

lemma keeps_books_linkAuthorsFrom:
  "keeps (\<lambda>d. tbl_books (tables d)) (linkAuthorsFrom fault b i names)"
  by (induction names arbitrary: i)
     (auto intro!: keeps_andThen keeps_return keeps_query keeps_books_getOrCreateAuthor
       simp: sqlUpsertBookAuthor_def)

lemma keeps_books_linkAuthors:
  "keeps (\<lambda>d. tbl_books (tables d)) (linkAuthors fault b book)"
  unfolding linkAuthors_def relinkAuthors_def
  by (auto intro!: keeps_andThen keeps_return keeps_query keeps_books_linkAuthorsFrom
       simp: sqlDeleteBookAuthors_def)

lemma keeps_books_relinkCategories:
  "keeps (\<lambda>d. tbl_books (tables d)) (relinkCategories fault b names)"
  by (induction names)
     (auto intro!: keeps_andThen keeps_return keeps_query keeps_books_getOrCreateCategory
       simp: sqlInsertBookCategory_def)

lemma keeps_books_linkCategories:
  "keeps (\<lambda>d. tbl_books (tables d)) (linkCategories fault b book)"
  unfolding linkCategories_def
  by (auto intro!: keeps_return keeps_books_relinkCategories)

lemma keeps_books_linking:
  "keeps (\<lambda>d. tbl_books (tables d))
     (andThen (linkAuthors fault b book) (\<lambda>_. linkCategories fault b book))"
  by (intro keeps_andThen keeps_books_linkAuthors keeps_books_linkCategories)




lemma postgres_usable: "\<not> aborted d \<Longrightarrow> postgres fault q d = fault q d"
  by (simp add: postgres_def)
















lemma firstRow_None: "(firstRow xs = None) = (xs = [])"
  by (simp add: firstRow_def split: list.splits)


section \<open>The lookup of an existing book\<close>









text \<open>
  The order of the rows decides only which of several matching rows is returned: whether
  a rule of the cascade has a match, and so which rule gives the result, depends on the
  set of rows alone, and the book returned satisfies the rule that gave it.
\<close>

lemma firstRow_filter_None:
  "(firstRow (map f (filter P rows)) = None) = (\<forall>r\<in>set rows. \<not> P r)"
  by (simp add: firstRow_None filter_empty_conv)

lemma lookup_order:
  assumes "set rows = set rows'"
  shows "(matchByIsbn book rows = None) = (matchByIsbn book rows' = None)"
    and "(matchByTitleYear book rows = None) = (matchByTitleYear book rows' = None)"
    and "(matchByTitle book rows = None) = (matchByTitle book rows' = None)"
    and "(findBookId_spec book rows = None) = (findBookId_spec book rows' = None)"
proof -
  show 1: "(matchByIsbn book rows = None) = (matchByIsbn book rows' = None)"
    using assms by (simp add: matchByIsbn_def firstRow_filter_None)
  show 2: "(matchByTitleYear book rows = None) = (matchByTitleYear book rows' = None)"
    using assms by (simp add: matchByTitleYear_def firstRow_filter_None)
  show 3: "(matchByTitle book rows = None) = (matchByTitle book rows' = None)"
    using assms by (simp add: matchByTitle_def firstRow_filter_None)
  from 1 2 3 show "(findBookId_spec book rows = None) = (findBookId_spec book rows' = None)"
    by (auto simp: findBookId_spec_def split: option.splits)
qed

lemma firstRow_filter_Some:
  "firstRow (map f (filter P rows)) = Some b \<Longrightarrow> \<exists>r\<in>set rows. f r = b \<and> P r"
proof -
  assume a: "firstRow (map f (filter P rows)) = Some b"
  then obtain r rest where f: "filter P rows = r # rest" and b: "f r = b"
    by (cases "filter P rows") (auto simp: firstRow_def)
  then have "r \<in> set (filter P rows)" by simp
  with b show ?thesis by auto
qed

lemma lookup_match:
  assumes "findBookId_spec book rows = Some b"
  shows "\<exists>r\<in>set rows. book_id r = b \<and>
           (b_isbn r = isbn book \<and> truthyStr (isbn book) \<or>
            b_title r = title book \<and> title book \<noteq> [])"
proof (cases "matchByIsbn book rows")
  case (Some x)
  with assms have x: "x = b" by (simp add: findBookId_spec_def)
  from Some have t: "truthyStr (isbn book)" by (simp add: matchByIsbn_def split: if_splits)
  with Some x have "firstRow (map book_id (filter (\<lambda>r. b_isbn r = isbn book) rows)) = Some b"
    by (simp add: matchByIsbn_def)
  from firstRow_filter_Some [OF this] t show ?thesis by blast
next
  case None
  show ?thesis
  proof (cases "matchByTitleYear book rows")
    case (Some x)
    with None assms have x: "x = b" by (simp add: findBookId_spec_def)
    from Some have t: "title book \<noteq> []" by (simp add: matchByTitleYear_def split: if_splits)
    with Some x have "firstRow (map book_id
        (filter (\<lambda>r. b_title r = title book \<and> b_publication_year r = publication_year book) rows))
        = Some b"
      by (simp add: matchByTitleYear_def split: if_splits)
    from firstRow_filter_Some [OF this] t show ?thesis by blast
  next
    case n2: None
    with None assms have m: "matchByTitle book rows = Some b" by (simp add: findBookId_spec_def)
    then have t: "title book \<noteq> []" by (simp add: matchByTitle_def split: if_splits)
    with m have "firstRow (map book_id (filter (\<lambda>r. b_title r = title book) rows)) = Some b"
      by (simp add: matchByTitle_def)
    from firstRow_filter_Some [OF this] t show ?thesis by blast
  qed
qed



section \<open>Updating a matched book\<close>

lemma saveLoop_foldl:
  "saveLoop fault now sid books s =
     foldl (\<lambda>s book. snd (tryBody fault now sid book (fst s) (snd s))) s books"
proof (induction books arbitrary: s)
  case Nil
  show ?case by simp
next
  case (Cons book books)
  obtain counts d where s: "s = (counts, d)" by (cases s)
  show ?case by (simp add: s Cons)
qed

lemma saveLoop_append:
  "saveLoop fault now sid (xs @ ys) s = saveLoop fault now sid ys (saveLoop fault now sid xs s)"
  by (simp add: saveLoop_foldl)

lemma saveLoop_snapshot_query: "snapshot (snd (clientQuery fault q run d)) = snapshot d"
  by (simp add: clientQuery_def split: option.splits prod.splits)

lemma updateRow_merged: "mergedFrom now book (book_id r) r (updateRow now book r)"
  by (simp add: mergedFrom_def updateRow_def coalesce_def)

lemma mergedFrom_keepsValues: "mergedFrom now book bookId r r' \<Longrightarrow> keepsValues r r'"
  by (auto simp: mergedFrom_def keepsValues_def split: if_splits option.splits)

lemma sqlUpdateBook_merged:
  "list_all2 (mergedFrom now book bookId) (tbl_books t) (tbl_books (snd (sqlUpdateBook now book bookId t)))"
proof -
  have "list_all2 (mergedFrom now book bookId) rows
          (map (\<lambda>r. if book_id r = bookId then updateRow now book r else r) rows)" for rows
  proof (induction rows)
    case Nil
    show ?case by simp
  next
    case (Cons r rows)
    have "mergedFrom now book bookId r (if book_id r = bookId then updateRow now book r else r)"
      using updateRow_merged [of now book r] by (auto simp: mergedFrom_def)
    with Cons show ?case by simp
  qed
  then show ?thesis by (simp add: sqlUpdateBook_def)
qed

lemma upsertBook_update:
  assumes "findExisting fault book d = (Inr (Some bookId), d)"
    and "fault (UpdateBook book bookId) d = None"
  shows "upsertBook fault now sourceId book d =
           (Inr (True, bookId), d\<lparr>tables := snd (sqlUpdateBook now book bookId (tables d))\<rparr>)"
  using assms by (simp add: upsertBook_def andThen_def clientQuery_def return_def split: prod.splits)

lemma tryBody_books_after_upsert:
  assumes "upsertBook fault now sourceId book d = (Inr res, d1)"
  shows "tbl_books (tables (snd (snd (tryBody fault now sourceId book counts d)))) =
           tbl_books (tables d1)"
proof -
  obtain existed bookId where res: "res = (existed, bookId)" by (cases res)
  let ?link = "andThen (linkAuthors fault bookId book) (\<lambda>_. linkCategories fault bookId book)"
  from keepsD [OF keeps_books_linking, of fault bookId book d1]
  have "tbl_books (tables (snd (?link d1))) = tbl_books (tables d1)" .
  with assms res show ?thesis
    by (auto simp: tryBody_def Let_def split: prod.splits)
qed

text \<open>
  Claim C4: when a candidate matches an existing book and the update is carried out, the
  row of that book takes, for each of subtitle, publisher, pages, description,
  cover_image_url and isbn, the candidate's value if the candidate has one and keeps the
  stored value otherwise, so that no stored value is replaced by null; last_updated is
  set to the current time; no other column of the row and no other row of the table is
  changed, also by the linking of authors and categories that follows.
\<close>

theorem update_is_coalesce_merge:
  assumes "findExisting fault book d = (Inr (Some bookId), d)"
    and "fault (UpdateBook book bookId) d = None"
  shows "upsertBook fault now sourceId book d =
           (Inr (True, bookId), d\<lparr>tables := snd (sqlUpdateBook now book bookId (tables d))\<rparr>) \<and>
         list_all2 (mergedFrom now book bookId) (tbl_books (tables d))
           (tbl_books (tables (snd (snd (tryBody fault now sourceId book counts d))))) \<and>
         list_all2 keepsValues (tbl_books (tables d))
           (tbl_books (tables (snd (snd (tryBody fault now sourceId book counts d)))))"
proof -
  note u = upsertBook_update [OF assms, of now sourceId]
  from tryBody_books_after_upsert [OF u, of counts]
  have b: "tbl_books (tables (snd (snd (tryBody fault now sourceId book counts d)))) =
      tbl_books (snd (sqlUpdateBook now book bookId (tables d)))" by simp
  have m: "list_all2 (mergedFrom now book bookId) (tbl_books (tables d))
      (tbl_books (snd (sqlUpdateBook now book bookId (tables d))))"
    by (rule sqlUpdateBook_merged)
  then have "list_all2 keepsValues (tbl_books (tables d))
      (tbl_books (snd (sqlUpdateBook now book bookId (tables d))))"
    by (rule list_all2_mono) (rule mergedFrom_keepsValues)
  with u b m show ?thesis by simp
qed

theorem update_is_coalesce_merge_witness:
  "\<exists>r'. tbl_books (tables (snd (snd (tryBody noFaults 5 1
            ((candidate ''Dune'' None [] [])\<lparr>description := Some ''A novel''\<rparr>) (0, 0) storeAcme)))) = [r'] \<and>
        b_publisher r' = Some ''Acme'' \<and> b_description r' = Some ''A novel'' \<and>
        b_title r' = ''Dune'' \<and> b_last_updated r' = Some 5"
proof -
  let ?c = "(candidate ''Dune'' None [] [])\<lparr>description := Some ''A novel''\<rparr>"
  let ?r = "(insertedRow 7 (candidate ''Dune'' None [] []) 1)\<lparr>b_publisher := Some ''Acme''\<rparr>"
  have rows: "tbl_books (tables storeAcme) = [?r]"
    by (simp add: storeAcme_def emptyTables_def)
  have "findBookId_spec ?c [?r] = Some 7"
    by (simp add: candidate_def insertedRow_def findBookId_spec_def matchByIsbn_def
        matchByTitleYear_def matchByTitle_def truthyStr_def truthyNum_def firstRow_def)
  then have h1: "findExisting noFaults ?c storeAcme = (Inr (Some 7), storeAcme)"
    by (simp add: findExisting_noFaults rows)
  have h2: "noFaults (UpdateBook ?c 7) storeAcme = None"
    by (simp add: noFaults_def)
  from update_is_coalesce_merge [OF h1 h2, of 5 1 "(0, 0)"]
  have "list_all2 (mergedFrom 5 ?c 7) [?r]
      (tbl_books (tables (snd (snd (tryBody noFaults 5 1 ?c (0, 0) storeAcme)))))"
    by (simp add: rows)
  then obtain r' where
    r': "tbl_books (tables (snd (snd (tryBody noFaults 5 1 ?c (0, 0) storeAcme)))) = [r']"
    and m: "mergedFrom 5 ?c 7 ?r r'"
    by (auto simp: list_all2_Cons1)
  from m have "b_publisher r' = Some ''Acme'' \<and> b_description r' = Some ''A novel'' \<and>
        b_title r' = ''Dune'' \<and> b_last_updated r' = Some 5"
    by (simp add: mergedFrom_def candidate_def insertedRow_def)
  with r' show ?thesis by blast
qed

section \<open>The batch and its failed candidates\<close>

text \<open>
  Every action of the loop leaves the tables saved at \<^verbatim>\<open>BEGIN\<close> alone, and leaves
  the transaction aborted when it raises.
\<close>

lemma transactionalD: "transactional m \<Longrightarrow> snapshot (snd (m d)) = snapshot d"
  by (simp add: transactional_def)

lemma transactional_aborts:
  "transactional m \<Longrightarrow> m d = (Inl e, d') \<Longrightarrow> snapshot d \<noteq> None \<Longrightarrow> aborted d'"
  by (auto simp: transactional_def dest: spec [of _ d])

lemma transactional_return: "transactional (return x)"
  by (simp add: transactional_def return_def)

lemma transactional_query: "transactional (clientQuery fault q run)"
  by (auto simp: transactional_def clientQuery_def split: option.splits prod.splits)

lemma transactional_andThen:
  assumes "transactional m" and "\<And>x. transactional (f x)"
  shows "transactional (andThen m f)"
proof -
  have "snapshot (snd (andThen m f d)) = snapshot d \<and>
        (snapshot d \<noteq> None \<and> (\<exists>e. fst (andThen m f d) = Inl e) \<longrightarrow> aborted (snd (andThen m f d)))"
    for d
  proof (cases "m d")
    case (Pair r d1)
    from transactionalD [OF assms(1), of d] Pair have s1: "snapshot d1 = snapshot d" by simp
    show ?thesis
    proof (cases r)
      case (Inl e)
      from transactional_aborts [OF assms(1), of d e d1] Pair Inl s1 show ?thesis
        by (auto simp: andThen_def)
    next
      case (Inr x)
      have a: "andThen m f d = f x d1" using Pair Inr by (simp add: andThen_def)
      from transactionalD [OF assms(2), of x d1] s1
      have s2: "snapshot (snd (f x d1)) = snapshot d" by simp
      have "aborted (snd (f x d1))" if n: "snapshot d \<noteq> None" and e: "fst (f x d1) = Inl e" for e
      proof -
        obtain d2 where fx: "f x d1 = (Inl e, d2)" using e by (cases "f x d1") auto
        from transactional_aborts [OF assms(2) fx] n s1 fx show ?thesis by simp
      qed
      with a s2 show ?thesis by auto
    qed
  qed
  then show ?thesis by (simp add: transactional_def)
qed

lemma transactional_getOrCreateAuthor: "transactional (getOrCreateAuthor fault n)"
  unfolding getOrCreateAuthor_def
  by (intro transactional_andThen transactional_query)
     (auto split: list.splits intro: transactional_return transactional_query)

lemma transactional_getOrCreateCategory: "transactional (getOrCreateCategory fault n)"
  unfolding getOrCreateCategory_def
  by (intro transactional_andThen transactional_query)
     (auto split: list.splits intro: transactional_return transactional_query)

lemma transactional_linkAuthorsFrom: "transactional (linkAuthorsFrom fault b i names)"
  by (induction names arbitrary: i)
     (auto intro!: transactional_andThen transactional_return transactional_query
        transactional_getOrCreateAuthor)

lemma transactional_linkAuthors: "transactional (linkAuthors fault b book)"
  unfolding linkAuthors_def relinkAuthors_def
  by (auto intro!: transactional_andThen transactional_return transactional_query
        transactional_linkAuthorsFrom)

lemma transactional_relinkCategories: "transactional (relinkCategories fault b names)"
  by (induction names)
     (auto intro!: transactional_andThen transactional_return transactional_query
        transactional_getOrCreateCategory)

lemma transactional_linkCategories: "transactional (linkCategories fault b book)"
  unfolding linkCategories_def
  by (auto intro!: transactional_return transactional_relinkCategories)

lemma transactional_findExisting: "transactional (findExisting fault book)"
  unfolding findExisting_def lookupByIsbn_def lookupByTitleYear_def lookupByTitle_def
  by (auto split: option.splits
        intro!: transactional_andThen transactional_return transactional_query)

lemma transactional_upsertBook: "transactional (upsertBook fault now sid book)"
  unfolding upsertBook_def
  by (auto split: option.splits
        intro!: transactional_andThen transactional_return transactional_query
          transactional_findExisting)

text \<open>The body of the loop as one action: its outcome and the state it leaves.\<close>

lemma tryBody_action:
  "(fst (tryBody fault now sid book counts d), snd (snd (tryBody fault now sid book counts d))) =
     andThen (upsertBook fault now sid book)
       (\<lambda>res. andThen (linkAuthors fault (snd res) book) (\<lambda>_. linkCategories fault (snd res) book)) d"
  by (auto simp: tryBody_def andThen_def Let_def split: prod.splits sum.splits)

lemma transactional_body:
  "transactional (andThen (upsertBook fault now sid book)
     (\<lambda>res. andThen (linkAuthors fault (snd res) book) (\<lambda>_. linkCategories fault (snd res) book)))"
  by (intro transactional_andThen transactional_upsertBook transactional_linkAuthors
        transactional_linkCategories)

lemma tryBody_snapshot:
  "snapshot (snd (snd (tryBody fault now sid book counts d))) = snapshot d"
  using transactionalD [OF transactional_body, of fault now sid book d]
    tryBody_action [of fault now sid book counts d, symmetric]
  by simp

lemma tryBody_aborts:
  assumes "tryBody fault now sid book counts d = (Inl e, counts', d')" and "snapshot d \<noteq> None"
  shows "aborted d'"
proof -
  from assms(1) tryBody_action [of fault now sid book counts d, symmetric]
  have "andThen (upsertBook fault now sid book)
       (\<lambda>res. andThen (linkAuthors fault (snd res) book) (\<lambda>_. linkCategories fault (snd res) book)) d
       = (Inl e, d')" by simp
  from transactional_aborts [OF transactional_body this assms(2)] show ?thesis .
qed

lemma saveLoop_snapshot:
  "snapshot (snd (saveLoop fault now sid books (counts, d))) = snapshot d"
proof (induction books arbitrary: counts d)
  case Nil
  show ?case by simp
next
  case (Cons book books)
  obtain r c1 d1 where t: "tryBody fault now sid book counts d = (r, c1, d1)"
    by (cases "tryBody fault now sid book counts d") auto
  from tryBody_snapshot [of fault now sid book counts d] t have "snapshot d1 = snapshot d" by simp
  with Cons [of c1 d1] t show ?case by simp
qed

text \<open>In an aborted transaction the body raises at its first statement and changes nothing.\<close>

lemma aborted_same: "aborted d \<Longrightarrow> d\<lparr>aborted := True\<rparr> = d"
  by simp

lemma query_aborted:
  "aborted d \<Longrightarrow> \<not> endsTransaction q \<Longrightarrow>
     clientQuery (postgres fault) q run d = (Inl (Error abortedMessage), d)"
  by (simp add: clientQuery_def postgres_def)

lemma upsertBook_aborted:
  assumes "aborted d"
  shows "upsertBook (postgres fault) now sid book d = (Inl (Error abortedMessage), d)"
  using assms
  by (simp add: upsertBook_def findExisting_def lookupByIsbn_def lookupByTitleYear_def
      lookupByTitle_def andThen_def return_def query_aborted endsTransaction_def
      split: option.splits)

lemma tryBody_aborted:
  "aborted d \<Longrightarrow>
     tryBody (postgres fault) now sid book counts d = (Inl (Error abortedMessage), counts, d)"
  by (simp add: tryBody_def upsertBook_aborted)

lemma saveLoop_aborted:
  "aborted d \<Longrightarrow> saveLoop (postgres fault) now sid books (counts, d) = (counts, d)"
  by (induction books) (simp_all add: tryBody_aborted)

lemma saveBooks_after_failure:
  assumes ok: "\<forall>d. fault Connect d = None \<and> fault Begin d = None \<and> fault Commit d = None \<and>
                   fault (TouchSource sid) d = None"
    and l: "saveLoop (postgres fault) now sid before ((0, 0), sqlBegin (sqlConnect d)) = (counts1, d1)"
    and t: "tryBody (postgres fault) now sid book counts1 d1 = (Inl e, counts2, d2)"
  shows "saveBooks fault now (before @ book # rest) sid d =
           (Inr counts2,
            \<lparr> tables = snd (sqlTouchSource now sid (tables d)), snapshot = None, aborted = False \<rparr>)"
proof -
  let ?pf = "postgres fault"
  let ?d0 = "sqlBegin (sqlConnect d)"
  from saveLoop_snapshot [of ?pf now sid before "(0, 0)" ?d0] l
  have s1: "snapshot d1 = Some (tables d)" by (simp add: sqlBegin_def sqlConnect_def)
  from tryBody_snapshot [of ?pf now sid book counts1 d1] t s1
  have s2: "snapshot d2 = Some (tables d)" by simp
  from tryBody_aborts [OF t] s1 have a2: "aborted d2" by simp
  have loop: "saveLoop ?pf now sid (before @ book # rest) ((0, 0), ?d0) = (counts2, d2)"
    using l t a2 by (simp add: saveLoop_append saveLoop_aborted)
  have b: "?pf Begin (sqlConnect d) = None"
    using ok by (simp add: postgres_def sqlConnect_def)
  have c: "?pf Commit d2 = None"
    using ok by (simp add: postgres_def endsTransaction_def)
  have cd: "sqlCommit d2 = \<lparr> tables = tables d, snapshot = None, aborted = False \<rparr>"
    using a2 s2 by (simp add: sqlCommit_def sqlRollback_def)
  have u: "?pf (TouchSource sid) \<lparr> tables = tables d, snapshot = None, aborted = False \<rparr> = None"
    using ok by (simp add: postgres_def)
  from ok b loop c cd u show ?thesis
    by (simp add: saveBooks_def control_def andThen_def clientQuery_def return_def
        split: prod.splits)
qed

lemma saveBooks_commits:
  assumes ok: "\<forall>d. fault Connect d = None \<and> fault Begin d = None \<and> fault Commit d = None \<and>
                   fault (TouchSource sid) d = None"
    and l: "saveLoop (postgres fault) now sid books ((0, 0), sqlBegin (sqlConnect d)) = (counts, d2)"
    and u: "\<not> aborted d2"
  shows "saveBooks fault now books sid d =
           (Inr counts,
            \<lparr> tables = snd (sqlTouchSource now sid (tables d2)), snapshot = None, aborted = False \<rparr>)"
proof -
  let ?pf = "postgres fault"
  have b: "?pf Begin (sqlConnect d) = None"
    using ok by (simp add: postgres_def sqlConnect_def)
  have c: "?pf Commit d2 = None"
    using ok by (simp add: postgres_def endsTransaction_def)
  have cd: "sqlCommit d2 = \<lparr> tables = tables d2, snapshot = None, aborted = False \<rparr>"
    using u by (simp add: sqlCommit_def)
  have t: "?pf (TouchSource sid) \<lparr> tables = tables d2, snapshot = None, aborted = False \<rparr> = None"
    using ok by (simp add: postgres_def)
  from ok b l c cd t show ?thesis
    by (simp add: saveBooks_def control_def andThen_def clientQuery_def return_def
        split: prod.splits)
qed


text \<open>
  Claim C1: an error raised while one candidate is processed is caught in the loop, which
  goes on with the next candidate; the batch is said to commit all the same, with the
  writes of every candidate that succeeded. On PostgreSQL it does not. The statement that
  raised has aborted the transaction: every candidate after it raises at its first
  statement and writes nothing, and \<^verbatim>\<open>COMMIT\<close> rolls back. Whenever the body of
  one candidate raises, \<open>saveBooks\<close> raises nothing and returns the counters as they
  stood after that candidate, and the store holds no write of the batch: its tables are
  those it had before the call, with the source marked as scraped.
\<close>

theorem saveBooks_failed_candidate_rolls_back_batch:
  assumes "\<forall>d. fault Connect d = None \<and> fault Begin d = None \<and> fault Commit d = None \<and>
               fault (TouchSource sourceId) d = None"
    and "saveLoop (postgres fault) now sourceId before ((0, 0), sqlBegin (sqlConnect d)) =
           (counts1, d1)"
    and "tryBody (postgres fault) now sourceId book counts1 d1 = (Inl e, counts2, d2)"
  shows "saveBooks fault now (before @ book # rest) sourceId d =
           (Inr counts2,
            \<lparr> tables = snd (sqlTouchSource now sourceId (tables d)), snapshot = None,
              aborted = False \<rparr>) \<and>
         tryBody (postgres fault) now sourceId later counts d2 =
           (Inl (Error abortedMessage), counts, d2) \<and>
         saveLoop (postgres fault) now sourceId rest (counts2, d2) = (counts2, d2)"
proof -
  from saveLoop_snapshot [of "postgres fault" now sourceId before "(0, 0)" "sqlBegin (sqlConnect d)"]
    assms(2)
  have "snapshot d1 \<noteq> None" by (simp add: sqlBegin_def sqlConnect_def)
  with tryBody_aborts [OF assms(3)] have a: "aborted d2" by simp
  from saveBooks_after_failure [OF assms] tryBody_aborted [OF a] saveLoop_aborted [OF a]
  show ?thesis by simp
qed

theorem saveBooks_failed_candidate_rolls_back_batch_witness:
  "saveBooks (rejectTitle ''Bad'') 0
     [candidate ''One'' None [] [], candidate ''Bad'' None [] [], candidate ''Three'' None [] []]
     1 emptyDb = (Inr (1, 0), emptyDb) \<and>
   fst (tryBody (postgres (rejectTitle ''Bad'')) 0 1 (candidate ''Three'' None [] []) (1, 0)
     \<lparr> tables = emptyTables\<lparr>tbl_books := [insertedRow 1 (candidate ''One'' None [] []) 1]\<rparr>,
       snapshot = Some emptyTables, aborted = True \<rparr>) = Inl (Error abortedMessage) \<and>
   saveBooks (rejectTitle ''Bad'') 0
     [candidate ''One'' None [] [], candidate ''Three'' None [] []] 1 emptyDb =
     (Inr (2, 0),
      \<lparr> tables = emptyTables\<lparr>tbl_books :=
          [insertedRow 1 (candidate ''One'' None [] []) 1,
           insertedRow 2 (candidate ''Three'' None [] []) 1]\<rparr>,
        snapshot = None, aborted = False \<rparr>)"
proof -
  let ?one = "candidate ''One'' None [] []"
  let ?bad = "candidate ''Bad'' None [] []"
  let ?three = "candidate ''Three'' None [] []"
  let ?d1 = "\<lparr> tables = emptyTables\<lparr>tbl_books := [insertedRow 1 ?one 1]\<rparr>,
       snapshot = Some emptyTables, aborted = False \<rparr>"
  let ?d2 = "\<lparr> tables = emptyTables\<lparr>tbl_books := [insertedRow 1 ?one 1]\<rparr>,
       snapshot = Some emptyTables, aborted = True \<rparr>"
  have h: "\<forall>d. rejectTitle ''Bad'' Connect d = None \<and> rejectTitle ''Bad'' Begin d = None \<and>
      rejectTitle ''Bad'' Commit d = None \<and> rejectTitle ''Bad'' (TouchSource 1) d = None"
    by (simp add: rejectTitle_def)
  have l: "saveLoop (postgres (rejectTitle ''Bad'')) 0 1 [?one] ((0, 0), sqlBegin (sqlConnect emptyDb)) =
      ((1, 0), ?d1)"
    by code_simp
  have t: "tryBody (postgres (rejectTitle ''Bad'')) 0 1 ?bad (1, 0) ?d1 =
      (Inl (Error ''constraint violation''), (1, 0), ?d2)"
    by code_simp
  note T = saveBooks_failed_candidate_rolls_back_batch
    [OF h l t, where rest = "[?three]" and later = ?three and counts = "(1, 0)"]
  have e: "\<lparr> tables = snd (sqlTouchSource 0 1 (tables emptyDb)), snapshot = None, aborted = False \<rparr> =
      emptyDb"
    by (simp add: sqlTouchSource_def emptyDb_def emptyTables_def)
  have c: "saveBooks (rejectTitle ''Bad'') 0 [?one, ?three] 1 emptyDb =
     (Inr (2, 0),
      \<lparr> tables = emptyTables\<lparr>tbl_books := [insertedRow 1 ?one 1, insertedRow 2 ?three 1]\<rparr>,
        snapshot = None, aborted = False \<rparr>)"
    by code_simp
  from T e c show ?thesis by simp
qed

text \<open>
  Claim C2: the counts returned reflect only the candidates that succeeded, a candidate
  that raises at any point of its processing adding to neither. The counter is
  incremented right after the insert or the update, before the authors and categories are
  linked. So a candidate whose book was inserted or updated and whose linking raises has
  been counted, as added or as updated, and \<open>saveBooks\<close> returns that count; on
  PostgreSQL the write it counts is then rolled back with the rest of the batch.
\<close>

theorem saveBooks_counts_failed_candidate:
  assumes "\<forall>d. fault Connect d = None \<and> fault Begin d = None \<and> fault Commit d = None \<and>
               fault (TouchSource sourceId) d = None"
    and "saveLoop (postgres fault) now sourceId before ((0, 0), sqlBegin (sqlConnect d)) =
           (counts1, d1)"
    and "upsertBook (postgres fault) now sourceId book d1 = (Inr (existed, bookId), d1')"
    and "andThen (linkAuthors (postgres fault) bookId book)
           (\<lambda>_. linkCategories (postgres fault) bookId book) d1' = (Inl e, d2)"
  shows "tryBody (postgres fault) now sourceId book counts1 d1 =
           (Inl e,
            (if existed then (fst counts1, snd counts1 + 1) else (fst counts1 + 1, snd counts1)),
            d2) \<and>
         saveBooks fault now (before @ book # rest) sourceId d =
           (Inr (if existed then (fst counts1, snd counts1 + 1) else (fst counts1 + 1, snd counts1)),
            \<lparr> tables = snd (sqlTouchSource now sourceId (tables d)), snapshot = None,
              aborted = False \<rparr>)"
proof -
  from assms(3,4)
  have t: "tryBody (postgres fault) now sourceId book counts1 d1 =
           (Inl e,
            (if existed then (fst counts1, snd counts1 + 1) else (fst counts1 + 1, snd counts1)),
            d2)"
    by (simp add: tryBody_def Let_def)
  from t saveBooks_after_failure [OF assms(1,2) t] show ?thesis by simp
qed

theorem saveBooks_counts_failed_candidate_witness:
  "fst (tryBody (postgres rejectAuthors) 0 1 (candidate ''Dune'' None [''Frank Herbert''] [])
          (0, 0) (sqlBegin (sqlConnect emptyDb))) = Inl (Error ''constraint violation'') \<and>
   saveBooks rejectAuthors 0 [candidate ''Dune'' None [''Frank Herbert''] []] 1 emptyDb =
     (Inr (1, 0), emptyDb)"
proof -
  let ?c = "candidate ''Dune'' None [''Frank Herbert''] []"
  let ?d0 = "sqlBegin (sqlConnect emptyDb)"
  let ?d1 = "snd (upsertBook (postgres rejectAuthors) 0 1 ?c ?d0)"
  let ?d2 = "snd (andThen (linkAuthors (postgres rejectAuthors) 1 ?c)
           (\<lambda>_. linkCategories (postgres rejectAuthors) 1 ?c) ?d1)"
  have h: "\<forall>d. rejectAuthors Connect d = None \<and> rejectAuthors Begin d = None \<and>
      rejectAuthors Commit d = None \<and> rejectAuthors (TouchSource 1) d = None"
    by (simp add: rejectAuthors_def)
  have l: "saveLoop (postgres rejectAuthors) 0 1 [] ((0, 0), ?d0) = ((0, 0), ?d0)"
    by simp
  have u: "upsertBook (postgres rejectAuthors) 0 1 ?c ?d0 = (Inr (False, 1), ?d1)"
    by code_simp
  have k: "andThen (linkAuthors (postgres rejectAuthors) 1 ?c)
           (\<lambda>_. linkCategories (postgres rejectAuthors) 1 ?c) ?d1 =
           (Inl (Error ''constraint violation''), ?d2)"
    by code_simp
  note T = saveBooks_counts_failed_candidate [OF h l u k, where rest = "[]"]
  have e: "\<lparr> tables = snd (sqlTouchSource 0 1 (tables emptyDb)), snapshot = None, aborted = False \<rparr> =
      emptyDb"
    by (simp add: sqlTouchSource_def emptyDb_def emptyTables_def)
  from T e show ?thesis by simp
qed

section \<open>The orchestrator: failures of a run\<close>




lemma failedRun_without_log:
  "failedRun fault now None sourceId (Error message) d =
     (Inr (failedResult 0 (case sourceId of None \<Rightarrow> 0 | Some i \<Rightarrow> i) message), d)"
  by (simp add: failedRun_def andThen_def return_def)

lemma failedRun_returns:
  assumes "\<forall>l u d. fault (UpdateLog l u) d = None"
  shows "\<exists>r. fst (failedRun fault now logId sourceId e d) = Inr r"
proof -
  obtain message where e: "e = Error message" by (cases e)
  show ?thesis
  proof (cases logId)
    case None
    with e show ?thesis by (simp add: failedRun_without_log)
  next
    case (Some l)
    with e assms show ?thesis
      by (simp add: failedRun_def updateScrapingLog_def andThen_def poolQuery_def return_def
          split: prod.splits)
  qed
qed


lemma scrapeAndSave_returns:
  assumes u: "\<forall>l u d. fault (UpdateLog l u) d = None"
  shows "\<exists>r. fst (scrapeAndSave net fault now type query sourceName baseUrl customSelectors d) = Inr r"
proof (cases "getOrCreateSource fault sourceName baseUrl d")
  case (Pair r1 d1)
  show ?thesis
  proof (cases r1)
    case (Inl e)
    with Pair failedRun_returns [OF u, of now None None e d1] show ?thesis
      by (simp add: scrapeAndSave_def)
  next
    case (Inr sid)
    show ?thesis
    proof (cases "createScrapingLog fault now sid d1")
      case p2: (Pair r2 d2)
      show ?thesis
      proof (cases r2)
        case (Inl e)
        with Pair Inr p2 failedRun_returns [OF u, of now None "Some sid" e d2] show ?thesis
          by (simp add: scrapeAndSave_def)
      next
        case i2: (Inr lid)
        show ?thesis
        proof (cases "scrapeSaveAndClose net fault now type query customSelectors sid lid d2")
          case p3: (Pair r3 d3)
          show ?thesis
          proof (cases r3)
            case (Inl e)
            with Pair Inr p2 i2 p3 failedRun_returns [OF u, of now "Some lid" "Some sid" e d3]
            show ?thesis by (simp add: scrapeAndSave_def)
          next
            case i3: (Inr res)
            with Pair Inr p2 i2 p3 show ?thesis by (simp add: scrapeAndSave_def)
          qed
        qed
      qed
    qed
  qed
qed























section \<open>The batch driver\<close>

lemma scrapeLoop_acc:
  "scrapeLoop net fault now sources (results, trace, d) =
     (results @ fst (scrapeLoop net fault now sources ([], [], d)),
      trace @ fst (snd (scrapeLoop net fault now sources ([], [], d))),
      snd (snd (scrapeLoop net fault now sources ([], [], d))))"
proof (induction sources arbitrary: results trace d)
  case Nil
  show ?case by simp
next
  case (Cons source rest)
  obtain r es d' where o: "scrapeOne net fault now source (rest = []) d = (r, es, d')"
    by (cases "scrapeOne net fault now source (rest = []) d") auto
  have 1: "scrapeLoop net fault now (source # rest) (results, trace, d) =
      scrapeLoop net fault now rest (results @ [r], trace @ es, d')"
    by (simp add: o)
  have 2: "scrapeLoop net fault now (source # rest) ([], [], d) =
      scrapeLoop net fault now rest ([r], es, d')"
    by (simp add: o)
  note i1 = Cons [of "results @ [r]" "trace @ es" d']
  note i2 = Cons [of "[r]" es d']
  show ?case
    unfolding 1 2 by (simp add: i1 i2)
qed

lemma scrapeLoop_Cons:
  "scrapeLoop net fault now (source # rest) ([], [], d) =
     (fst (scrapeOne net fault now source (rest = []) d) #
        fst (scrapeLoop net fault now rest ([], [], snd (snd (scrapeOne net fault now source (rest = []) d)))),
      fst (snd (scrapeOne net fault now source (rest = []) d)) @
        fst (snd (scrapeLoop net fault now rest ([], [], snd (snd (scrapeOne net fault now source (rest = []) d))))),
      snd (snd (scrapeLoop net fault now rest ([], [], snd (snd (scrapeOne net fault now source (rest = []) d))))))"
proof -
  obtain r es d' where o: "scrapeOne net fault now source (rest = []) d = (r, es, d')"
    by (cases "scrapeOne net fault now source (rest = []) d") auto
  have "scrapeLoop net fault now (source # rest) ([], [], d) =
      scrapeLoop net fault now rest ([r], es, d')"
    by (simp add: o)
  also have "\<dots> = ([r] @ fst (scrapeLoop net fault now rest ([], [], d')),
      es @ fst (snd (scrapeLoop net fault now rest ([], [], d'))),
      snd (snd (scrapeLoop net fault now rest ([], [], d'))))"
    by (rule scrapeLoop_acc)
  finally show ?thesis by (simp add: o)
qed

lemma scrapeLoop_length:
  "length (fst (scrapeLoop net fault now sources ([], [], d))) = length sources"
  by (induction sources arbitrary: d) (simp_all add: scrapeLoop_Cons del: scrapeLoop.simps(2))

lemma scrapeOne_raised:
  "scrapeSource net fault now source d = (Inl (Error message), d') \<Longrightarrow>
     scrapeOne net fault now source isLast d =
       (failedResult 0 0 message, [Processing (s_sourceName source)], d')"
  by (simp add: scrapeOne_def scrapeSource_def)

lemma scrapeOne_returned:
  "scrapeSource net fault now source d = (Inr result, d') \<Longrightarrow>
     scrapeOne net fault now source isLast d =
       (result, Processing (s_sourceName source) # (if isLast then [] else [Delay 2000]), d')"
  by (simp add: scrapeOne_def scrapeSource_def)

lemma scrapeOne_last_effects:
  "fst (snd (scrapeOne net fault now source True d)) = [Processing (s_sourceName source)]"
  by (auto simp: scrapeOne_def split: prod.splits sum.splits error.splits)

lemma scrapeOne_effects_nonempty: "fst (snd (scrapeOne net fault now source isLast d)) \<noteq> []"
  by (auto simp: scrapeOne_def split: prod.splits sum.splits error.splits)

lemma scrapeLoop_trace_nonempty:
  "sources \<noteq> [] \<Longrightarrow> fst (snd (scrapeLoop net fault now sources ([], [], d))) \<noteq> []"
  by (cases sources) (simp_all add: scrapeLoop_Cons scrapeOne_effects_nonempty del: scrapeLoop.simps(2))

lemma scrapeLoop_last_effect:
  "sources \<noteq> [] \<Longrightarrow>
     last (fst (snd (scrapeLoop net fault now sources ([], [], d)))) =
       Processing (s_sourceName (last sources))"
proof (induction sources arbitrary: d)
  case Nil
  then show ?case by simp
next
  case (Cons source rest)
  show ?case
  proof (cases "rest = []")
    case True
    then show ?thesis
      by (simp add: scrapeLoop_Cons scrapeOne_last_effects del: scrapeLoop.simps(2))
  next
    case False
    with Cons scrapeLoop_trace_nonempty [OF False] show ?thesis
      by (simp add: scrapeLoop_Cons del: scrapeLoop.simps(2))
  qed
qed

lemma scrapeOne_delays:
  assumes "\<forall>l u d. fault (UpdateLog l u) d = None"
  shows "filter isDelay (fst (snd (scrapeOne net fault now source isLast d))) =
           (if isLast then [] else [Delay 2000])"
proof -
  from scrapeAndSave_returns [OF assms]
  obtain r where "fst (scrapeAndSave net fault now (s_type source) (s_query source)
      (s_sourceName source) (s_baseUrl source) (s_customSelectors source) d) = Inr r"
    by blast
  then show ?thesis
    by (auto simp: scrapeOne_def scrapeSource_def isDelay_def split: prod.splits sum.splits)
qed

lemma scrapeLoop_delays:
  assumes "\<forall>l u d. fault (UpdateLog l u) d = None"
  shows "filter isDelay (fst (snd (scrapeLoop net fault now sources ([], [], d)))) =
           replicate (length sources - 1) (Delay 2000)"
proof (induction sources arbitrary: d)
  case Nil
  show ?case by simp
next
  case (Cons source rest)
  show ?case
  proof (cases "rest = []")
    case True
    then show ?thesis
      by (simp add: scrapeLoop_Cons scrapeOne_delays [OF assms] del: scrapeLoop.simps(2))
  next
    case False
    then obtain x xs where "rest = x # xs" by (cases rest) auto
    with Cons show ?thesis
      by (simp add: scrapeLoop_Cons scrapeOne_delays [OF assms] del: scrapeLoop.simps(2))
  qed
qed

lemma foldl_sum: "foldl (\<lambda>sum r. sum + f r) (a::nat) rs = a + sum_list (map f rs)"
  by (induction rs arbitrary: a) simp_all

text \<open>
  Claim C8, as stated: a 2-second delay stands between any two consecutive runs, and the
  driver returns aggregate totals with the list. The delay is awaited inside the
  \<^verbatim>\<open>try\<close>, after \<open>scrapeAndSave\<close> has returned: when \<open>scrapeAndSave\<close> raises, the
  driver goes to the next source without waiting. Here both runs raise, and no delay
  stands between them.
\<close>

theorem scrapeMultipleSources_delay_counterexample:
  "fst (scrapeMultipleSources offline rejectLogUpdates 0 [sampleSource ''A'', sampleSource ''B'']
          emptyDb) =
     ([failedResult 0 0 ''connection lost'', failedResult 0 0 ''connection lost''],
      [Processing ''A'', Processing ''B'',
       Summary \<lparr> sources_processed = 2, successful = 0, failed_sources = 2, total_added = 0,
                 total_updated = 0, total_errors = 2 \<rparr>])"
  by code_simp

text \<open>
  Claim C8, amended: the driver runs the specifications one after the other, each from the
  store the previous one left, and returns one result for each, in the order of the
  input; a run that raises gives the entry with status failed, one error and the message,
  and the runs after it take place all the same. A run that returns is followed by a
  delay of 2000 ms unless it is the last; nothing is waited for after the last run, and
  when no run raises there is exactly one delay between any two consecutive runs. The
  driver returns the list of results only: the totals (sums of added, updated and errors,
  number of completed runs and of the others) are computed from that list and printed in
  the summary, which is the last thing the driver does. Before the summary, what the
  driver does is what its iterations do, one after the other.
\<close>

theorem scrapeMultipleSources_isolates_failures:
  "length (fst (fst (scrapeMultipleSources net fault now sources d))) = length sources \<and>
   fst (fst (scrapeMultipleSources net fault now [] d)) = [] \<and>
   fst (fst (scrapeMultipleSources net fault now (source # rest) d)) =
     fst (scrapeOne net fault now source (rest = []) d) #
     fst (fst (scrapeMultipleSources net fault now rest
                 (snd (snd (scrapeOne net fault now source (rest = []) d))))) \<and>
   (\<forall>message d'. scrapeSource net fault now source d = (Inl (Error message), d') \<longrightarrow>
      scrapeOne net fault now source isLast d =
        (failedResult 0 0 message, [Processing (s_sourceName source)], d')) \<and>
   (\<forall>result d'. scrapeSource net fault now source d = (Inr result, d') \<longrightarrow>
      scrapeOne net fault now source isLast d =
        (result, Processing (s_sourceName source) # (if isLast then [] else [Delay 2000]), d')) \<and>
   snd (fst (scrapeMultipleSources net fault now sources d)) =
     fst (snd (scrapeLoop net fault now sources ([], [], d))) @
     [Summary (summaryOf (length sources) (fst (fst (scrapeMultipleSources net fault now sources d))))] \<and>
   (sources \<noteq> [] \<longrightarrow>
      last (fst (snd (scrapeLoop net fault now sources ([], [], d)))) =
        Processing (s_sourceName (last sources))) \<and>
   ((\<forall>l u d. fault (UpdateLog l u) d = None) \<longrightarrow>
      filter isDelay (snd (fst (scrapeMultipleSources net fault now sources d))) =
        replicate (length sources - 1) (Delay 2000)) \<and>
   summaryOf n results =
     \<lparr> sources_processed = n,
       successful = length (filter (\<lambda>r. status r = completed) results),
       failed_sources = n - length (filter (\<lambda>r. status r = completed) results),
       total_added = sum_list (map books_added results),
       total_updated = sum_list (map books_updated results),
       total_errors = sum_list (map errors results) \<rparr> \<and>
   fst (snd (scrapeLoop net fault now [] ([], [], d))) = [] \<and>
   fst (snd (scrapeLoop net fault now (source # rest) ([], [], d))) =
     fst (snd (scrapeOne net fault now source (rest = []) d)) @
     fst (snd (scrapeLoop net fault now rest
                 ([], [], snd (snd (scrapeOne net fault now source (rest = []) d)))))"
proof (intro conjI allI impI)
  show "length (fst (fst (scrapeMultipleSources net fault now sources d))) = length sources"
  proof -
    obtain results trace d' where
      l: "scrapeLoop net fault now sources ([], [], d) = (results, trace, d')"
      by (cases "scrapeLoop net fault now sources ([], [], d)") auto
    with scrapeLoop_length [of net fault now sources d] show ?thesis
      by (simp add: scrapeMultipleSources_def)
  qed
next
  show "fst (fst (scrapeMultipleSources net fault now [] d)) = []"
    by (simp add: scrapeMultipleSources_def)
next
  show "fst (fst (scrapeMultipleSources net fault now (source # rest) d)) =
     fst (scrapeOne net fault now source (rest = []) d) #
     fst (fst (scrapeMultipleSources net fault now rest
                 (snd (snd (scrapeOne net fault now source (rest = []) d)))))"
    unfolding scrapeMultipleSources_def scrapeLoop_Cons
    by (simp split: prod.splits)
next
  fix message d' assume "scrapeSource net fault now source d = (Inl (Error message), d')"
  then show "scrapeOne net fault now source isLast d =
        (failedResult 0 0 message, [Processing (s_sourceName source)], d')"
    by (rule scrapeOne_raised)
next
  fix result d' assume "scrapeSource net fault now source d = (Inr result, d')"
  then show "scrapeOne net fault now source isLast d =
        (result, Processing (s_sourceName source) # (if isLast then [] else [Delay 2000]), d')"
    by (rule scrapeOne_returned)
next
  show "snd (fst (scrapeMultipleSources net fault now sources d)) =
     fst (snd (scrapeLoop net fault now sources ([], [], d))) @
     [Summary (summaryOf (length sources) (fst (fst (scrapeMultipleSources net fault now sources d))))]"
    by (simp add: scrapeMultipleSources_def split: prod.splits)
next
  assume "sources \<noteq> []"
  then show "last (fst (snd (scrapeLoop net fault now sources ([], [], d)))) =
        Processing (s_sourceName (last sources))"
    by (rule scrapeLoop_last_effect)
next
  assume u: "\<forall>l u d. fault (UpdateLog l u) d = None"
  have "snd (fst (scrapeMultipleSources net fault now sources d)) =
     fst (snd (scrapeLoop net fault now sources ([], [], d))) @
     [Summary (summaryOf (length sources) (fst (fst (scrapeMultipleSources net fault now sources d))))]"
    by (simp add: scrapeMultipleSources_def split: prod.splits)
  then show "filter isDelay (snd (fst (scrapeMultipleSources net fault now sources d))) =
        replicate (length sources - 1) (Delay 2000)"
    by (simp add: scrapeLoop_delays [OF u] isDelay_def)
next
  show "summaryOf n results =
     \<lparr> sources_processed = n,
       successful = length (filter (\<lambda>r. status r = completed) results),
       failed_sources = n - length (filter (\<lambda>r. status r = completed) results),
       total_added = sum_list (map books_added results),
       total_updated = sum_list (map books_updated results),
       total_errors = sum_list (map errors results) \<rparr>"
    by (simp add: summaryOf_def Let_def foldl_sum)
next
  show "fst (snd (scrapeLoop net fault now [] ([], [], d))) = []"
    by simp
next
  show "fst (snd (scrapeLoop net fault now (source # rest) ([], [], d))) =
     fst (snd (scrapeOne net fault now source (rest = []) d)) @
     fst (snd (scrapeLoop net fault now rest
                 ([], [], snd (snd (scrapeOne net fault now source (rest = []) d)))))"
    by (simp add: scrapeLoop_Cons del: scrapeLoop.simps(2))
qed

theorem scrapeMultipleSources_isolates_failures_witness:
  "fst (scrapeMultipleSources oneWork noFaults 0 [sampleSource ''A'', sampleSource ''B''] emptyDb) =
     ([\<lparr> r_log_id = 1, r_source_id = 1, books_added = 1, books_updated = 0, errors = 0,
          status = completed, error_details = None \<rparr>,
       \<lparr> r_log_id = 2, r_source_id = 2, books_added = 0, books_updated = 1, errors = 0,
          status = completed, error_details = None \<rparr>],
      [Processing ''A'', Delay 2000, Processing ''B'',
       Summary \<lparr> sources_processed = 2, successful = 2, failed_sources = 0, total_added = 1,
                 total_updated = 1, total_errors = 0 \<rparr>]) \<and>
   filter isDelay (snd (fst (scrapeMultipleSources oneWork noFaults 0
      [sampleSource ''A'', sampleSource ''B''] emptyDb))) = [Delay 2000] \<and>
   last (fst (snd (scrapeLoop oneWork noFaults 0 [sampleSource ''A'', sampleSource ''B'']
      ([], [], emptyDb)))) = Processing ''B'' \<and>
   scrapeOne offline rejectLogUpdates 0 (sampleSource ''A'') False emptyDb =
     (failedResult 0 0 ''connection lost'', [Processing ''A''],
      snd (scrapeSource offline rejectLogUpdates 0 (sampleSource ''A'') emptyDb)) \<and>
   fst (scrapeOne oneWork noFaults 0 (sampleSource ''A'') False emptyDb) =
     \<lparr> r_log_id = 1, r_source_id = 1, books_added = 1, books_updated = 0, errors = 0,
       status = completed, error_details = None \<rparr>"
proof -
  let ?ss = "[sampleSource ''A'', sampleSource ''B'']"
  let ?r1 = "\<lparr> r_log_id = 1, r_source_id = 1, books_added = 1, books_updated = 0, errors = 0,
       status = completed, error_details = None \<rparr>"
  note T = scrapeMultipleSources_isolates_failures
    [where net = oneWork and fault = noFaults and now = 0 and sources = ?ss and d = emptyDb
       and source = "sampleSource ''A''" and isLast = False]
  note U = scrapeMultipleSources_isolates_failures
    [where net = offline and fault = rejectLogUpdates and now = 0 and d = emptyDb
       and source = "sampleSource ''A''" and isLast = False]
  have h1: "\<forall>l u d. noFaults (UpdateLog l u) d = None"
    by (simp add: noFaults_def)
  have h2: "?ss \<noteq> []" by simp
  have h3: "scrapeSource offline rejectLogUpdates 0 (sampleSource ''A'') emptyDb =
      (Inl (Error ''connection lost''),
       snd (scrapeSource offline rejectLogUpdates 0 (sampleSource ''A'') emptyDb))"
    by code_simp
  have h4: "scrapeSource oneWork noFaults 0 (sampleSource ''A'') emptyDb =
      (Inr ?r1, snd (scrapeSource oneWork noFaults 0 (sampleSource ''A'') emptyDb))"
    by code_simp
  from T h1 have 1: "filter isDelay (snd (fst (scrapeMultipleSources oneWork noFaults 0 ?ss emptyDb))) =
      replicate (length ?ss - 1) (Delay 2000)"
    by blast
  from T h2 have 2: "last (fst (snd (scrapeLoop oneWork noFaults 0 ?ss ([], [], emptyDb)))) =
      Processing (s_sourceName (last ?ss))"
    by blast
  from U h3 have 3: "scrapeOne offline rejectLogUpdates 0 (sampleSource ''A'') False emptyDb =
     (failedResult 0 0 ''connection lost'', [Processing (s_sourceName (sampleSource ''A''))],
      snd (scrapeSource offline rejectLogUpdates 0 (sampleSource ''A'') emptyDb))"
    by blast
  from T h4 have 4: "fst (scrapeOne oneWork noFaults 0 (sampleSource ''A'') False emptyDb) = ?r1"
    by (metis fst_conv)
  have 5: "fst (scrapeMultipleSources oneWork noFaults 0 ?ss emptyDb) =
     ([?r1,
       \<lparr> r_log_id = 2, r_source_id = 2, books_added = 0, books_updated = 1, errors = 0,
          status = completed, error_details = None \<rparr>],
      [Processing ''A'', Delay 2000, Processing ''B'',
       Summary \<lparr> sources_processed = 2, successful = 2, failed_sources = 0, total_added = 1,
                 total_updated = 1, total_errors = 0 \<rparr>])"
    by code_simp
  from 1 2 3 4 5 show ?thesis
    by (simp add: sampleSource_def)
qed

section \<open>Linking categories\<close>



lemma ensureCategory_result:
  "ensureCategory name t = (c, t1) \<Longrightarrow>
     categoryIdOf name t1 = Some c \<and> tbl_book_categories t1 = tbl_book_categories t \<and>
     (\<exists>ext. tbl_categories t1 = tbl_categories t @ ext) \<and>
     (categoryIdOf name t \<noteq> None \<longrightarrow> t1 = t)"
  by (auto simp: ensureCategory_def sqlSelectCategory_def sqlInsertCategory_def Let_def
      categoryIdOf_def firstRow_def split: list.splits)




lemma insert_tables:
  "tbl_categories (snd (sqlInsertBookCategory b c t)) = tbl_categories t \<and>
   (\<exists>ext. tbl_book_categories (snd (sqlInsertBookCategory b c t)) = tbl_book_categories t @ ext) \<and>
   (linked b c t \<longrightarrow> snd (sqlInsertBookCategory b c t) = t)"
  by (auto simp: sqlInsertBookCategory_def linked_def)

lemma linkCategory_grows:
  "(\<exists>ext. tbl_categories (linkCategory b n t) = tbl_categories t @ ext) \<and>
   (\<exists>ext. tbl_book_categories (linkCategory b n t) = tbl_book_categories t @ ext)"
proof (cases "n \<noteq> [] \<and> trim n \<noteq> []")
  case False
  then show ?thesis by (auto simp: linkCategory_def)
next
  case True
  obtain c t1 where e: "ensureCategory (trim n) t = (c, t1)"
    by (cases "ensureCategory (trim n) t")
  from ensureCategory_result [OF e] insert_tables [of b c t1] True e show ?thesis
    by (auto simp: linkCategory_def)
qed






lemma foldl_grows:
  "(\<exists>ext. tbl_categories (foldl (\<lambda>t n. linkCategory b n t) t names) = tbl_categories t @ ext) \<and>
   (\<exists>ext. tbl_book_categories (foldl (\<lambda>t n. linkCategory b n t) t names) =
           tbl_book_categories t @ ext)"
proof (induction names arbitrary: t)
  case Nil
  show ?case by simp
next
  case (Cons n names)
  from linkCategory_grows [of b n t] obtain e1 e2 where
    g: "tbl_categories (linkCategory b n t) = tbl_categories t @ e1"
       "tbl_book_categories (linkCategory b n t) = tbl_book_categories t @ e2"
    by blast
  from Cons [of "linkCategory b n t"] g show ?case by auto
qed







section \<open>Linking authors\<close>

lemma getOrCreateAuthor_noFaults:
  "getOrCreateAuthor noFaults name d =
     (Inr (fst (ensureAuthor name (tables d))), d\<lparr>tables := snd (ensureAuthor name (tables d))\<rparr>)"
  by (simp add: getOrCreateAuthor_def andThen_def query_noFaults ensureAuthor_def
      sqlSelectAuthor_def return_def split: list.splits)

lemma linkAuthorsFrom_noFaults:
  "linkAuthorsFrom noFaults bookId i names d =
     (Inr (), d\<lparr>tables := linkAuthorsPure bookId i names (tables d)\<rparr>)"
proof (induction names arbitrary: i d)
  case Nil
  show ?case by (simp add: return_def)
next
  case (Cons n names)
  show ?case
    by (simp add: andThen_def getOrCreateAuthor_noFaults query_noFaults return_def Cons
        linkAuthor_def split: prod.splits)
qed

lemma relinkAuthors_noFaults:
  "relinkAuthors noFaults bookId names d =
     (Inr (), d\<lparr>tables := linkAuthorsPure bookId 0 names
                              (snd (sqlDeleteBookAuthors bookId (tables d)))\<rparr>)"
  by (simp add: relinkAuthors_def andThen_def query_noFaults linkAuthorsFrom_noFaults)

lemma lookupAuthor_append:
  "lookupAuthor name rows = Some a \<Longrightarrow> lookupAuthor name (rows @ ext) = Some a"
  by (auto simp: lookupAuthor_def firstRow_def split: list.splits)

lemma ensureAuthorRow_grows: "\<exists>ext. ensureAuthorRow name rows = rows @ ext"
  by (auto simp: ensureAuthorRow_def split: option.splits)

lemma ensureAuthorRow_found: "lookupAuthor name (ensureAuthorRow name rows) \<noteq> None"
  by (auto simp: ensureAuthorRow_def lookupAuthor_def firstRow_def split: option.splits list.splits)

lemma ensureAuthorRow_noop: "lookupAuthor name rows \<noteq> None \<Longrightarrow> ensureAuthorRow name rows = rows"
  by (auto simp: ensureAuthorRow_def split: option.splits)

lemma authorsAfter_grows: "\<exists>ext. authorsAfter names rows = rows @ ext"
proof (induction names arbitrary: rows)
  case Nil
  show ?case by (simp add: authorsAfter_def)
next
  case (Cons n names)
  let ?r1 = "if nonblank n then ensureAuthorRow (trim n) rows else rows"
  from ensureAuthorRow_grows [of "trim n" rows] obtain e1 where e1: "?r1 = rows @ e1"
    by (cases "nonblank n") auto
  from Cons [of ?r1] obtain e2 where "authorsAfter names ?r1 = ?r1 @ e2" by blast
  with e1 have "authorsAfter (n # names) rows = rows @ (e1 @ e2)"
    by (simp add: authorsAfter_def)
  then show ?case by blast
qed

lemma authorsAfter_Cons:
  "authorsAfter (n # names) rows =
     authorsAfter names (if nonblank n then ensureAuthorRow (trim n) rows else rows)"
  by (simp add: authorsAfter_def)

lemma authorsAfter_keeps_found:
  "lookupAuthor name rows = Some a \<Longrightarrow> lookupAuthor name (authorsAfter names rows) = Some a"
  using authorsAfter_grows [of names rows] by (auto simp: lookupAuthor_append)

lemma authorsAfter_found:
  "n \<in> set names \<Longrightarrow> nonblank n \<Longrightarrow> lookupAuthor (trim n) (authorsAfter names rows) \<noteq> None"
proof (induction names arbitrary: rows)
  case Nil
  then show ?case by simp
next
  case (Cons m names)
  show ?case
  proof (cases "n = m")
    case True
    from ensureAuthorRow_found [of "trim n" rows]
    obtain a where "lookupAuthor (trim n) (ensureAuthorRow (trim n) rows) = Some a" by auto
    from authorsAfter_keeps_found [OF this, of names] True Cons(3) show ?thesis
      by (simp add: authorsAfter_Cons)
  next
    case False
    with Cons show ?thesis by (simp add: authorsAfter_Cons)
  qed
qed

lemma authorsAfter_noop:
  "(\<And>n. n \<in> set names \<Longrightarrow> nonblank n \<Longrightarrow> lookupAuthor (trim n) rows \<noteq> None) \<Longrightarrow>
     authorsAfter names rows = rows"
proof (induction names)
  case Nil
  show ?case by (simp add: authorsAfter_def)
next
  case (Cons n names)
  have "(if nonblank n then ensureAuthorRow (trim n) rows else rows) = rows"
    using Cons(2) [of n] by (simp add: ensureAuthorRow_noop)
  with Cons show ?case by (simp add: authorsAfter_Cons)
qed

lemma writes_cong:
  "(\<And>n. n \<in> set names \<Longrightarrow> nonblank n \<Longrightarrow> lookupAuthor (trim n) rows = lookupAuthor (trim n) rows') \<Longrightarrow>
     writes i names rows = writes i names rows'"
  by (induction names arbitrary: i) (simp_all add: writeOf_def)

lemma ensureAuthor_tables:
  "ensureAuthor name t = (a, t1) \<Longrightarrow>
     t1 = t\<lparr>tbl_authors := ensureAuthorRow name (tbl_authors t)\<rparr> \<and>
     lookupAuthor name (ensureAuthorRow name (tbl_authors t)) = Some a"
  by (auto simp: ensureAuthor_def sqlSelectAuthor_def sqlInsertAuthor_def Let_def
      ensureAuthorRow_def lookupAuthor_def firstRow_def split: list.splits)

lemma upsertLink_book:
  "\<forall>r\<in>set R. ba_book_id r = b \<Longrightarrow> \<forall>r\<in>set (upsertLink b R w). ba_book_id r = b"
  by (auto simp: upsertLink_def)

lemma foldl_upsertLink_book:
  "\<forall>r\<in>set R. ba_book_id r = b \<Longrightarrow> \<forall>r\<in>set (foldl (upsertLink b) R ws). ba_book_id r = b"
proof (induction ws arbitrary: R)
  case Nil
  then show ?case by simp
next
  case (Cons w ws)
  from upsertLink_book [OF Cons(2), of w] Cons(1) [of "upsertLink b R w"] show ?case by simp
qed

lemma upsert_split:
  assumes "tbl_book_authors t = others @ R" "\<forall>r\<in>set others. ba_book_id r \<noteq> b"
    "\<forall>r\<in>set R. ba_book_id r = b"
  shows "snd (sqlUpsertBookAuthor b a p t) = t\<lparr>tbl_book_authors := others @ upsertLink b R (a, p)\<rparr>"
proof -
  have o: "map (\<lambda>r. if ba_book_id r = b \<and> ba_author_id r = a then r\<lparr>author_position := p\<rparr> else r)
      others = others"
    using assms(2) by (induction others) auto
  have r: "map (\<lambda>r. if ba_book_id r = b \<and> ba_author_id r = a then r\<lparr>author_position := p\<rparr> else r) R
      = map (\<lambda>r. if ba_author_id r = a then r\<lparr>author_position := p\<rparr> else r) R"
    using assms(3) by (induction R) auto
  have e1: "\<not> list_ex (\<lambda>r. ba_book_id r = b \<and> ba_author_id r = a) others"
    using assms(2) by (auto simp: list_ex_iff)
  have e2: "list_ex (\<lambda>r. ba_book_id r = b \<and> ba_author_id r = a) R =
      list_ex (\<lambda>r. ba_author_id r = a) R"
    using assms(3) by (auto simp: list_ex_iff)
  show ?thesis
    by (simp add: sqlUpsertBookAuthor_def assms(1) e1 e2 o r upsertLink_def)
qed

lemma linkAuthorsPure_closed:
  assumes "tbl_book_authors t = others @ R" "\<forall>r\<in>set others. ba_book_id r \<noteq> b"
    "\<forall>r\<in>set R. ba_book_id r = b"
  shows "linkAuthorsPure b i names t =
           t\<lparr>tbl_authors := authorsAfter names (tbl_authors t),
             tbl_book_authors :=
               others @ foldl (upsertLink b) R (writes i names (authorsAfter names (tbl_authors t)))\<rparr>"
  using assms
proof (induction names arbitrary: i t R)
  case Nil
  then show ?case by (simp add: authorsAfter_def)
next
  case (Cons n rest)
  show ?case
  proof (cases "nonblank n")
    case False
    then have l: "linkAuthor b i n t = t" by (auto simp: linkAuthor_def nonblank_def)
    from Cons(1) [OF Cons(2,3,4), of "i + 1"] False l show ?thesis
      by (simp add: authorsAfter_Cons writeOf_def)
  next
    case True
    obtain a t1 where e: "ensureAuthor (trim n) t = (a, t1)"
      by (cases "ensureAuthor (trim n) t")
    let ?A1 = "ensureAuthorRow (trim n) (tbl_authors t)"
    let ?R2 = "upsertLink b R (a, i + 1)"
    let ?Afin = "authorsAfter rest ?A1"
    from ensureAuthor_tables [OF e] have t1: "t1 = t\<lparr>tbl_authors := ?A1\<rparr>"
      and a: "lookupAuthor (trim n) ?A1 = Some a" by simp_all
    from t1 Cons(2) have ba1: "tbl_book_authors t1 = others @ R" by simp
    let ?t2 = "t\<lparr>tbl_authors := ?A1, tbl_book_authors := others @ ?R2\<rparr>"
    from upsert_split [OF ba1 Cons(3,4), of a "i + 1"] t1
    have t2: "snd (sqlUpsertBookAuthor b a (i + 1) t1) = ?t2" by simp
    from True e t2 have l: "linkAuthor b i n t = ?t2"
      by (simp add: linkAuthor_def nonblank_def)
    have i2: "tbl_book_authors ?t2 = others @ ?R2" by simp
    from upsertLink_book [OF Cons(4), of "(a, i + 1)"]
    have r2: "\<forall>r\<in>set ?R2. ba_book_id r = b" .
    from authorsAfter_keeps_found [OF a, of rest]
    have w: "writes i (n # rest) ?Afin = (a, i + 1) # writes (i + 1) rest ?Afin"
      using True by (simp add: writeOf_def)
    from Cons(1) [OF i2 Cons(3) r2, of "i + 1"]
    have "linkAuthorsPure b (i + 1) rest ?t2 =
        ?t2\<lparr>tbl_authors := ?Afin,
            tbl_book_authors := others @ foldl (upsertLink b) ?R2 (writes (i + 1) rest ?Afin)\<rparr>"
      by simp
    with l w True show ?thesis
      by (simp add: authorsAfter_Cons)
  qed
qed

lemma relinkPure_closed:
  "linkAuthorsPure b 0 names (snd (sqlDeleteBookAuthors b t)) =
     t\<lparr>tbl_authors := authorsAfter names (tbl_authors t),
       tbl_book_authors :=
         filter (\<lambda>r. ba_book_id r \<noteq> b) (tbl_book_authors t) @
         linksOf b names (authorsAfter names (tbl_authors t))\<rparr>"
proof -
  let ?t0 = "snd (sqlDeleteBookAuthors b t)"
  let ?others = "filter (\<lambda>r. ba_book_id r \<noteq> b) (tbl_book_authors t)"
  have t0: "?t0 = t\<lparr>tbl_book_authors := ?others\<rparr>"
    by (simp add: sqlDeleteBookAuthors_def)
  have 1: "tbl_book_authors ?t0 = ?others @ []" by (simp add: t0)
  have 2: "\<forall>r\<in>set ?others. ba_book_id r \<noteq> b" by simp
  have 3: "\<forall>r\<in>set ([]::book_author_row list). ba_book_id r = b" by simp
  from linkAuthorsPure_closed [OF 1 2 3, of 0 names] show ?thesis
    by (simp add: t0 linksOf_def)
qed

lemma linksOf_book: "\<forall>r\<in>set (linksOf b names rows). ba_book_id r = b"
  unfolding linksOf_def by (rule foldl_upsertLink_book) simp

lemma filter_others:
  "\<forall>r\<in>set L. ba_book_id r = b \<Longrightarrow>
     filter (\<lambda>r. ba_book_id r \<noteq> b) (filter (\<lambda>r. ba_book_id r \<noteq> b) rows @ L) =
       filter (\<lambda>r. ba_book_id r \<noteq> b) rows"
  by (simp add: filter_empty_conv)

lemma filter_own:
  "\<forall>r\<in>set L. ba_book_id r = b \<Longrightarrow>
     filter (\<lambda>r. ba_book_id r = b) (filter (\<lambda>r. ba_book_id r \<noteq> b) rows @ L) = L"
  by (simp add: filter_empty_conv filter_id_conv)

lemma upsertLink_distinct:
  "distinct (map ba_author_id R) \<Longrightarrow> distinct (map ba_author_id (upsertLink b R w))"
proof -
  assume d: "distinct (map ba_author_id R)"
  have m: "(\<lambda>r. ba_author_id (if ba_author_id r = fst w then r\<lparr>author_position := snd w\<rparr> else r))
      = ba_author_id"
    by auto
  show ?thesis
  proof (cases "list_ex (\<lambda>r. ba_author_id r = fst w) R")
    case True
    with d show ?thesis by (simp add: upsertLink_def comp_def m)
  next
    case False
    then have "fst w \<notin> ba_author_id ` set R" by (auto simp: list_ex_iff)
    with d False show ?thesis by (simp add: upsertLink_def)
  qed
qed

lemma foldl_upsertLink_distinct:
  "distinct (map ba_author_id R) \<Longrightarrow> distinct (map ba_author_id (foldl (upsertLink b) R ws))"
  by (induction ws arbitrary: R) (simp_all add: upsertLink_distinct)

lemma foldl_upsertLink_new:
  "distinct (map fst ws) \<Longrightarrow> \<forall>w\<in>set ws. fst w \<notin> set (map ba_author_id R) \<Longrightarrow>
     foldl (upsertLink b) R ws = R @ map (linkRow b) ws"
proof (induction ws arbitrary: R)
  case Nil
  show ?case by simp
next
  case (Cons w ws)
  from Cons(3) have n1: "fst w \<notin> ba_author_id ` set R" by simp
  have new: "\<not> list_ex (\<lambda>r. ba_author_id r = fst w) R"
  proof
    assume "list_ex (\<lambda>r. ba_author_id r = fst w) R"
    then obtain r where r: "r \<in> set R" "ba_author_id r = fst w" by (auto simp: list_ex_iff)
    then have "fst w \<in> ba_author_id ` set R" by (intro image_eqI [where x = r]) simp_all
    with n1 show False by (rule notE)
  qed
  then have u: "upsertLink b R w = R @ [linkRow b w]"
    by (simp add: upsertLink_def linkRow_def)
  from Cons(2) have dw: "fst w \<notin> fst ` set ws" and ds: "distinct (map fst ws)" by simp_all
  have "\<forall>v\<in>set ws. fst v \<notin> set (map ba_author_id (R @ [linkRow b w]))"
  proof
    fix v assume v: "v \<in> set ws"
    with Cons(3) have a: "fst v \<notin> ba_author_id ` set R" by simp
    from v have m: "fst v \<in> fst ` set ws" by (rule imageI)
    have "fst v \<noteq> fst w"
    proof
      assume "fst v = fst w"
      with m have "fst w \<in> fst ` set ws" by (simp only:)
      with dw show False by (rule notE)
    qed
    with a show "fst v \<notin> set (map ba_author_id (R @ [linkRow b w]))"
      by (simp add: linkRow_def)
  qed
  with Cons(1) [of "R @ [linkRow b w]"] ds u show ?case by simp
qed

lemma freshId_bound: "x \<in> set ids \<Longrightarrow> x < freshId ids"
  by (induction ids) (auto simp: freshId_def)

lemma ensureAuthorRow_distinct:
  assumes "distinct (map author_id rows)"
  shows "distinct (map author_id (ensureAuthorRow name rows))"
proof (cases "lookupAuthor name rows")
  case (Some a)
  with assms show ?thesis by (simp add: ensureAuthorRow_def)
next
  case None
  have "freshId (map author_id rows) \<notin> set (map author_id rows)"
    using freshId_bound [of "freshId (map author_id rows)" "map author_id rows"] by auto
  with assms None show ?thesis by (simp add: ensureAuthorRow_def)
qed

lemma authorsAfter_distinct:
  "distinct (map author_id rows) \<Longrightarrow> distinct (map author_id (authorsAfter names rows))"
  by (induction names arbitrary: rows) (simp_all add: authorsAfter_def ensureAuthorRow_distinct)

lemma lookupAuthor_row:
  "lookupAuthor name rows = Some a \<Longrightarrow> \<exists>r\<in>set rows. author_id r = a \<and> author_name r = name"
proof -
  assume l: "lookupAuthor name rows = Some a"
  let ?f = "filter (\<lambda>r. author_name r = name) rows"
  from l obtain r rest where f: "?f = r # rest" and a: "author_id r = a"
    by (cases ?f) (auto simp: lookupAuthor_def firstRow_def)
  then have "r \<in> set ?f" by simp
  with a show ?thesis by auto
qed

lemma lookupAuthor_inj:
  assumes "distinct (map author_id rows)" "lookupAuthor n1 rows = Some a" "lookupAuthor n2 rows = Some a"
  shows "n1 = n2"
proof -
  from lookupAuthor_row [OF assms(2)] obtain r1 where r1: "r1 \<in> set rows" "author_id r1 = a"
    "author_name r1 = n1" by blast
  from lookupAuthor_row [OF assms(3)] obtain r2 where r2: "r2 \<in> set rows" "author_id r2 = a"
    "author_name r2 = n2" by blast
  from assms(1) have "inj_on author_id (set rows)" by (simp add: distinct_map)
  from inj_onD [OF this, of r1 r2] r1(1,2) r2(1,2) have "r1 = r2" by simp
  with r1 r2 show ?thesis by simp
qed

lemma writeOf_fst:
  "w \<in> set (writeOf i n rows) \<Longrightarrow> nonblank n \<and> lookupAuthor (trim n) rows = Some (fst w)"
proof (cases "nonblank n")
  case False
  assume "w \<in> set (writeOf i n rows)"
  with False show ?thesis by (simp add: writeOf_def)
next
  case True
  assume a: "w \<in> set (writeOf i n rows)"
  show ?thesis
  proof (cases "lookupAuthor (trim n) rows")
    case None
    with True a show ?thesis by (simp add: writeOf_def)
  next
    case (Some x)
    with True a show ?thesis by (simp add: writeOf_def)
  qed
qed

lemma writes_fst:
  "w \<in> set (writes i names rows) \<Longrightarrow>
     \<exists>n\<in>set names. nonblank n \<and> lookupAuthor (trim n) rows = Some (fst w)"
proof (induction names arbitrary: i)
  case Nil
  then show ?case by simp
next
  case (Cons n names)
  from Cons(2) have "w \<in> set (writeOf i n rows) \<or> w \<in> set (writes (i + 1) names rows)"
    by simp
  then show ?case
  proof
    assume "w \<in> set (writeOf i n rows)"
    from writeOf_fst [OF this] show ?thesis by simp
  next
    assume "w \<in> set (writes (i + 1) names rows)"
    from Cons(1) [OF this] show ?thesis by auto
  qed
qed

lemma writes_distinct:
  assumes "distinct (map author_id rows)"
  shows "distinct (map trim (filter nonblank names)) \<Longrightarrow> distinct (map fst (writes i names rows))"
proof (induction names arbitrary: i)
  case Nil
  show ?case by simp
next
  case (Cons n names)
  show ?case
  proof (cases "nonblank n")
    case False
    with Cons show ?thesis by (simp add: writeOf_def)
  next
    case True
    with Cons(2) have d: "distinct (map trim (filter nonblank names))"
      and new: "trim n \<notin> set (map trim (filter nonblank names))" by simp_all
    show ?thesis
    proof (cases "lookupAuthor (trim n) rows")
      case None
      with True Cons(1) [OF d] show ?thesis by (simp add: writeOf_def)
    next
      case (Some a)
      have "a \<notin> set (map fst (writes (i + 1) names rows))"
      proof
        assume "a \<in> set (map fst (writes (i + 1) names rows))"
        then obtain w where w: "w \<in> set (writes (i + 1) names rows)" "fst w = a" by auto
        from writes_fst [OF w(1)] w(2) obtain m where m: "m \<in> set names" "nonblank m"
          "lookupAuthor (trim m) rows = Some a" by auto
        from lookupAuthor_inj [OF assms Some m(3)] have "trim n = trim m" .
        with m(1,2) new show False by auto
      qed
      with True Some Cons(1) [OF d] show ?thesis by (simp add: writeOf_def)
    qed
  qed
qed

lemma writes_length:
  "(\<And>n. n \<in> set names \<Longrightarrow> nonblank n \<Longrightarrow> lookupAuthor (trim n) rows \<noteq> None) \<Longrightarrow>
     length (writes i names rows) = length (filter nonblank names)"
proof (induction names arbitrary: i)
  case Nil
  show ?case by simp
next
  case (Cons n names)
  have ih: "length (writes (i + 1) names rows) = length (filter nonblank names)"
    by (rule Cons(1)) (simp add: Cons(2))
  show ?case
  proof (cases "nonblank n")
    case False
    with ih show ?thesis by (simp add: writeOf_def)
  next
    case True
    with Cons(2) [of n] obtain a where "lookupAuthor (trim n) rows = Some a" by auto
    with True ih show ?thesis by (simp add: writeOf_def)
  qed
qed

lemma upsertLink_ids:
  "ba_author_id ` set (upsertLink b R w) = insert (fst w) (ba_author_id ` set R)"
proof (cases "list_ex (\<lambda>r. ba_author_id r = fst w) R")
  case False
  then show ?thesis by (simp add: upsertLink_def)
next
  case True
  then obtain r where r: "r \<in> set R" "ba_author_id r = fst w" by (auto simp: list_ex_iff)
  then have in_R: "fst w \<in> ba_author_id ` set R" by (intro image_eqI [where x = r]) simp_all
  have m: "(\<lambda>r. ba_author_id (if ba_author_id r = fst w then r\<lparr>author_position := snd w\<rparr> else r))
      = ba_author_id"
    by auto
  have "map ba_author_id (upsertLink b R w) = map ba_author_id R"
    using True by (simp add: upsertLink_def comp_def m)
  then have "set (map ba_author_id (upsertLink b R w)) = set (map ba_author_id R)" by simp
  with in_R show ?thesis by auto
qed

text \<open>
  After the writes \<open>ws\<close> on a book without authors, each author written has one row,
  and its position is that of the last write for it.
\<close>

lemma foldl_upsertLink_last:
  "(\<forall>r\<in>set (foldl (upsertLink b) [] ws).
      filter (\<lambda>w. fst w = ba_author_id r) ws \<noteq> [] \<and>
      author_position r = snd (last (filter (\<lambda>w. fst w = ba_author_id r) ws))) \<and>
   ba_author_id ` set (foldl (upsertLink b) [] ws) = fst ` set ws"
proof (induction ws rule: rev_induct)
  case Nil
  show ?case by simp
next
  case (snoc w ws)
  let ?X = "foldl (upsertLink b) [] ws"
  from snoc have ih1: "\<And>r. r \<in> set ?X \<Longrightarrow>
      filter (\<lambda>w. fst w = ba_author_id r) ws \<noteq> [] \<and>
      author_position r = snd (last (filter (\<lambda>w. fst w = ba_author_id r) ws))"
    and ih2: "ba_author_id ` set ?X = fst ` set ws" by simp_all
  have step: "foldl (upsertLink b) [] (ws @ [w]) = upsertLink b ?X w" by simp
  have ids: "ba_author_id ` set (upsertLink b ?X w) = fst ` set (ws @ [w])"
    using upsertLink_ids [of b ?X w] ih2 by simp
  have rows: "filter (\<lambda>v. fst v = ba_author_id r) (ws @ [w]) \<noteq> [] \<and>
      author_position r = snd (last (filter (\<lambda>v. fst v = ba_author_id r) (ws @ [w])))"
    if r: "r \<in> set (upsertLink b ?X w)" for r
  proof (cases "list_ex (\<lambda>r. ba_author_id r = fst w) ?X")
    case True
    with r obtain r0 where r0: "r0 \<in> set ?X"
      and rr: "r = (if ba_author_id r0 = fst w then r0\<lparr>author_position := snd w\<rparr> else r0)"
      by (auto simp: upsertLink_def)
    show ?thesis
    proof (cases "ba_author_id r0 = fst w")
      case True
      with rr show ?thesis by simp
    next
      case False
      with rr have "r = r0" by simp
      with ih1 [OF r0] False show ?thesis by simp
    qed
  next
    case False
    with r have "r \<in> set ?X \<or> r = \<lparr>ba_book_id = b, ba_author_id = fst w, author_position = snd w\<rparr>"
      by (auto simp: upsertLink_def)
    then show ?thesis
    proof
      assume x: "r \<in> set ?X"
      with False have "ba_author_id r \<noteq> fst w" by (auto simp: list_ex_iff)
      with ih1 [OF x] show ?thesis by simp
    next
      assume "r = \<lparr>ba_book_id = b, ba_author_id = fst w, author_position = snd w\<rparr>"
      then show ?thesis by simp
    qed
  qed
  from rows ids show ?case unfolding step by blast
qed

lemma relinkAuthors_closed:
  "relinkAuthors noFaults b names d =
     (Inr (),
      d\<lparr>tables := (tables d)
          \<lparr>tbl_authors := authorsAfter names (tbl_authors (tables d)),
           tbl_book_authors :=
             filter (\<lambda>r. ba_book_id r \<noteq> b) (tbl_book_authors (tables d)) @
             linksOf b names (authorsAfter names (tbl_authors (tables d)))\<rparr>\<rparr>)"
  by (simp add: relinkAuthors_noFaults relinkPure_closed)

lemma relinkAuthors_again:
  "relinkAuthors noFaults b names (snd (relinkAuthors noFaults b names d)) =
     (Inr (), snd (relinkAuthors noFaults b names d))"
proof -
  let ?A = "authorsAfter names (tbl_authors (tables d))"
  let ?L = "linksOf b names ?A"
  have a: "authorsAfter names ?A = ?A"
    by (rule authorsAfter_noop) (rule authorsAfter_found)
  have o: "filter (\<lambda>r. ba_book_id r \<noteq> b) ?L = []"
    using linksOf_book [of b names ?A] by (simp add: filter_empty_conv)
  show ?thesis
    by (simp add: relinkAuthors_closed a o)
qed

text \<open>Whatever raises, the linking of the authors of a book leaves the rows of other books.\<close>

lemma upsert_others:
  "filter (\<lambda>r. ba_book_id r \<noteq> b) (tbl_book_authors (snd (sqlUpsertBookAuthor b a p t))) =
     filter (\<lambda>r. ba_book_id r \<noteq> b) (tbl_book_authors t)"
proof -
  have m: "filter (\<lambda>r. ba_book_id r \<noteq> b)
          (map (\<lambda>r. if ba_book_id r = b \<and> ba_author_id r = a then r\<lparr>author_position := p\<rparr> else r) rows) =
        filter (\<lambda>r. ba_book_id r \<noteq> b) rows" for rows :: "book_author_row list"
    by (induction rows) auto
  show ?thesis by (simp add: sqlUpsertBookAuthor_def m)
qed

lemma keeps_others_getOrCreateAuthor:
  "keeps (\<lambda>d. filter (\<lambda>r. ba_book_id r \<noteq> b) (tbl_book_authors (tables d)))
     (getOrCreateAuthor fault n)"
  unfolding getOrCreateAuthor_def
  by (intro keeps_andThen keeps_query [where h = "\<lambda>t. filter (\<lambda>r. ba_book_id r \<noteq> b) (tbl_book_authors t)"])
     (auto split: list.splits
       intro!: keeps_return keeps_query [where h = "\<lambda>t. filter (\<lambda>r. ba_book_id r \<noteq> b) (tbl_book_authors t)"]
       simp: sqlSelectAuthor_def sqlInsertAuthor_def Let_def)

lemma keeps_others_linkAuthorsFrom:
  "keeps (\<lambda>d. filter (\<lambda>r. ba_book_id r \<noteq> b) (tbl_book_authors (tables d)))
     (linkAuthorsFrom fault b i names)"
proof (induction names arbitrary: i)
  case Nil
  show ?case by (simp add: keeps_return)
next
  case (Cons n names)
  have q: "keeps (\<lambda>d. filter (\<lambda>r. ba_book_id r \<noteq> b) (tbl_book_authors (tables d)))
      (clientQuery fault (UpsertBookAuthor b a (Suc i)) (sqlUpsertBookAuthor b a (Suc i)))" for a
    by (rule keeps_query [where h = "\<lambda>t. filter (\<lambda>r. ba_book_id r \<noteq> b) (tbl_book_authors t)"])
       (rule upsert_others)
  show ?case
    by (auto intro!: keeps_andThen keeps_return keeps_others_getOrCreateAuthor q Cons)
qed

lemma keeps_others_relinkAuthors:
  "keeps (\<lambda>d. filter (\<lambda>r. ba_book_id r \<noteq> b) (tbl_book_authors (tables d)))
     (relinkAuthors fault b names)"
  unfolding relinkAuthors_def
  by (intro keeps_andThen keeps_others_linkAuthorsFrom
        keeps_query [where h = "\<lambda>t. filter (\<lambda>r. ba_book_id r \<noteq> b) (tbl_book_authors t)"])
     (simp add: sqlDeleteBookAuthors_def)

text \<open>
  Claim C5, as stated: after the rows of the book are deleted, one row is inserted for
  each non-empty name, in order, with its 1-based position. A name given twice has one
  row, with the position of its second place; and a name of spaces only, which is not
  empty, has no row, while the name after it keeps the position 2.
\<close>

theorem relinkAuthors_one_row_per_name_counterexample:
  "map (\<lambda>r. (ba_book_id r, ba_author_id r, author_position r))
     (tbl_book_authors (tables (snd (relinkAuthors noFaults 7
        [''Frank Herbert'', ''Frank Herbert''] emptyDb)))) = [(7, 1, 2)] \<and>
   map (\<lambda>r. (ba_book_id r, ba_author_id r, author_position r))
     (tbl_book_authors (tables (snd (relinkAuthors noFaults 7
        [''  '', ''Frank Herbert''] emptyDb)))) = [(7, 1, 2)]"
  by code_simp

text \<open>
  Claim C5, amended: relinking the authors of a book leaves the associations of other
  books as they are, whatever raises. When no statement raises, it deletes every
  association of the book; then, for each name of the list that is not blank once
  trimmed, in order, it finds or creates the author of the trimmed name and writes the
  association with the 1-based place of the name in the list, blank names counted. An
  author named again later in the list gets no second row: the position of its row is
  overwritten. So the book ends with exactly one row for each author named, placed after
  the rows of the other books, its position being the place of the last name that stands
  for that author; when the trimmed names are pairwise different, and so are the keys of
  the table of authors, these are one row for each name that is not blank, in the order
  of the list, each with its own place. Relinking a second time with the same list
  changes nothing. The step is run for a candidate that lists authors; for one that lists
  none, the associations of the book stay as they are.
\<close>

theorem relinkAuthors_replaces_links:
  "filter (\<lambda>r. ba_book_id r \<noteq> bookId)
     (tbl_book_authors (tables (snd (relinkAuthors fault bookId names d)))) =
     filter (\<lambda>r. ba_book_id r \<noteq> bookId) (tbl_book_authors (tables d)) \<and>
   fst (relinkAuthors noFaults bookId names d) = Inr () \<and>
   tbl_book_authors (tables (snd (relinkAuthors noFaults bookId names d))) =
     filter (\<lambda>r. ba_book_id r \<noteq> bookId) (tbl_book_authors (tables d)) @
     linksOf bookId names (tbl_authors (tables (snd (relinkAuthors noFaults bookId names d)))) \<and>
   (\<forall>n\<in>set names. nonblank n \<longrightarrow>
      lookupAuthor (trim n) (tbl_authors (tables (snd (relinkAuthors noFaults bookId names d))))
        \<noteq> None) \<and>
   length (writes 0 names (tbl_authors (tables (snd (relinkAuthors noFaults bookId names d))))) =
     length (filter nonblank names) \<and>
   (\<forall>r\<in>set (linksOf bookId names rows). ba_book_id r = bookId) \<and>
   distinct (map ba_author_id (linksOf bookId names rows)) \<and>
   ba_author_id ` set (linksOf bookId names rows) = fst ` set (writes 0 names rows) \<and>
   (\<forall>r\<in>set (linksOf bookId names rows).
      filter (\<lambda>w. fst w = ba_author_id r) (writes 0 names rows) \<noteq> [] \<and>
      author_position r =
        snd (last (filter (\<lambda>w. fst w = ba_author_id r) (writes 0 names rows)))) \<and>
   (distinct (map author_id (tbl_authors (tables d))) \<and>
    distinct (map trim (filter nonblank names)) \<longrightarrow>
      linksOf bookId names (tbl_authors (tables (snd (relinkAuthors noFaults bookId names d)))) =
        map (linkRow bookId)
          (writes 0 names (tbl_authors (tables (snd (relinkAuthors noFaults bookId names d)))))) \<and>
   relinkAuthors noFaults bookId names (snd (relinkAuthors noFaults bookId names d)) =
     (Inr (), snd (relinkAuthors noFaults bookId names d)) \<and>
   (authors book = [] \<longrightarrow> linkAuthors fault bookId book d = (Inr (), d)) \<and>
   (authors book \<noteq> [] \<longrightarrow>
      linkAuthors fault bookId book d = relinkAuthors fault bookId (authors book) d)"
proof (intro conjI ballI impI)
  let ?A = "authorsAfter names (tbl_authors (tables d))"
  have A: "tbl_authors (tables (snd (relinkAuthors noFaults bookId names d))) = ?A"
    by (simp add: relinkAuthors_closed)
  show "filter (\<lambda>r. ba_book_id r \<noteq> bookId)
     (tbl_book_authors (tables (snd (relinkAuthors fault bookId names d)))) =
     filter (\<lambda>r. ba_book_id r \<noteq> bookId) (tbl_book_authors (tables d))"
    by (rule keepsD [OF keeps_others_relinkAuthors])
  show "fst (relinkAuthors noFaults bookId names d) = Inr ()"
    by (simp add: relinkAuthors_closed)
  show "tbl_book_authors (tables (snd (relinkAuthors noFaults bookId names d))) =
     filter (\<lambda>r. ba_book_id r \<noteq> bookId) (tbl_book_authors (tables d)) @
     linksOf bookId names (tbl_authors (tables (snd (relinkAuthors noFaults bookId names d))))"
    by (simp add: relinkAuthors_closed)
  show "length (writes 0 names (tbl_authors (tables (snd (relinkAuthors noFaults bookId names d))))) =
     length (filter nonblank names)"
    unfolding A by (rule writes_length) (rule authorsAfter_found)
  show "relinkAuthors noFaults bookId names (snd (relinkAuthors noFaults bookId names d)) =
     (Inr (), snd (relinkAuthors noFaults bookId names d))"
    by (rule relinkAuthors_again)
  {
    assume "authors book = []"
    then show "linkAuthors fault bookId book d = (Inr (), d)"
      by (simp add: linkAuthors_def return_def)
  }
  {
    assume "authors book \<noteq> []"
    then show "linkAuthors fault bookId book d = relinkAuthors fault bookId (authors book) d"
      by (simp add: linkAuthors_def)
  }
  show "distinct (map ba_author_id (linksOf bookId names rows))"
    unfolding linksOf_def by (rule foldl_upsertLink_distinct) simp
  show "ba_author_id ` set (linksOf bookId names rows) = fst ` set (writes 0 names rows)"
    unfolding linksOf_def using foldl_upsertLink_last [of bookId "writes 0 names rows"] by blast
  {
    fix n assume "n \<in> set names" "nonblank n"
    then show "lookupAuthor (trim n)
        (tbl_authors (tables (snd (relinkAuthors noFaults bookId names d)))) \<noteq> None"
      unfolding A by (rule authorsAfter_found)
  }
  {
    fix r assume "r \<in> set (linksOf bookId names rows)"
    with linksOf_book [of bookId names rows] show "ba_book_id r = bookId" by blast
  }
  {
    fix r assume r: "r \<in> set (linksOf bookId names rows)"
    from foldl_upsertLink_last [of bookId "writes 0 names rows"] r
    show "filter (\<lambda>w. fst w = ba_author_id r) (writes 0 names rows) \<noteq> []"
      and "author_position r =
        snd (last (filter (\<lambda>w. fst w = ba_author_id r) (writes 0 names rows)))"
      unfolding linksOf_def by blast+
  }
  {
    assume h: "distinct (map author_id (tbl_authors (tables d))) \<and>
      distinct (map trim (filter nonblank names))"
    then have dA: "distinct (map author_id ?A)" by (simp add: authorsAfter_distinct)
    from writes_distinct [OF dA, of names 0] h
    have dw: "distinct (map fst (writes 0 names ?A))" by simp
    have "foldl (upsertLink bookId) [] (writes 0 names ?A) =
        [] @ map (linkRow bookId) (writes 0 names ?A)"
      by (rule foldl_upsertLink_new [OF dw]) simp
    then show "linksOf bookId names
        (tbl_authors (tables (snd (relinkAuthors noFaults bookId names d)))) =
        map (linkRow bookId)
          (writes 0 names (tbl_authors (tables (snd (relinkAuthors noFaults bookId names d)))))"
      unfolding A by (simp add: linksOf_def)
  }
qed

theorem relinkAuthors_replaces_links_witness:
  "map (\<lambda>r. (ba_book_id r, ba_author_id r, author_position r))
     (tbl_book_authors (tables (snd (relinkAuthors noFaults 7
        ['' Frank Herbert '', [], ''Brian Herbert''] storeLinked)))) =
     [(8, 5, 1), (7, 6, 1), (7, 7, 3)] \<and>
   map (\<lambda>r. (author_id r, author_name r))
     (tbl_authors (tables (snd (relinkAuthors noFaults 7
        ['' Frank Herbert '', [], ''Brian Herbert''] storeLinked)))) =
     [(5, ''Old Author''), (6, ''Frank Herbert''), (7, ''Brian Herbert'')] \<and>
   relinkAuthors noFaults 7 ['' Frank Herbert '', [], ''Brian Herbert'']
     (snd (relinkAuthors noFaults 7 ['' Frank Herbert '', [], ''Brian Herbert''] storeLinked)) =
     (Inr (), snd (relinkAuthors noFaults 7 ['' Frank Herbert '', [], ''Brian Herbert'']
                     storeLinked)) \<and>
   linkAuthors noFaults 7 (candidate ''Dune'' None [] []) storeLinked = (Inr (), storeLinked)"
proof -
  let ?ns = "['' Frank Herbert '', [], ''Brian Herbert'']"
  let ?d' = "snd (relinkAuthors noFaults 7 ?ns storeLinked)"
  note T = relinkAuthors_replaces_links
    [where bookId = 7 and names = ?ns and d = storeLinked and rows = "tbl_authors (tables ?d')"
       and book = "candidate ''Dune'' None [] []" and fault = noFaults]
  have h: "distinct (map author_id (tbl_authors (tables storeLinked))) \<and>
      distinct (map trim (filter nonblank ?ns))"
    by code_simp
  from T h have l: "linksOf 7 ?ns (tbl_authors (tables ?d')) =
      map (linkRow 7) (writes 0 ?ns (tbl_authors (tables ?d')))"
    by blast
  from T have b: "tbl_book_authors (tables ?d') =
      filter (\<lambda>r. ba_book_id r \<noteq> 7) (tbl_book_authors (tables storeLinked)) @
      linksOf 7 ?ns (tbl_authors (tables ?d'))"
    by blast
  have e: "map (\<lambda>r. (ba_book_id r, ba_author_id r, author_position r))
      (filter (\<lambda>r. ba_book_id r \<noteq> 7) (tbl_book_authors (tables storeLinked)) @
       map (linkRow 7) (writes 0 ?ns (tbl_authors (tables ?d')))) =
      [(8, 5, 1), (7, 6, 1), (7, 7, 3)]"
    by code_simp
  from b l e have 1: "map (\<lambda>r. (ba_book_id r, ba_author_id r, author_position r))
      (tbl_book_authors (tables ?d')) = [(8, 5, 1), (7, 6, 1), (7, 7, 3)]"
    by simp
  have 2: "map (\<lambda>r. (author_id r, author_name r)) (tbl_authors (tables ?d')) =
      [(5, ''Old Author''), (6, ''Frank Herbert''), (7, ''Brian Herbert'')]"
    by code_simp
  from T have 3: "relinkAuthors noFaults 7 ?ns ?d' = (Inr (), ?d')"
    by blast
  have g: "authors (candidate ''Dune'' None [] []) = []"
    by (simp add: candidate_def)
  from T g have 4: "linkAuthors noFaults 7 (candidate ''Dune'' None [] []) storeLinked =
      (Inr (), storeLinked)"
    by blast
  from 1 2 3 4 show ?thesis by simp
qed

end
